theory Spec2Isabelle
  imports Complex_Main "HOL-Library.Word"
begin

unbundle bit_operations_syntax

section \<open>JavaScript values\<close>

text \<open>
  Exceptions are values. \<open>Error msg\<close> is an \<^verbatim>\<open>Error\<close> object with its message; the
  others are the DOM and language exceptions the browser objects used by the code raise.
\<close>

datatype error =
    Error string
  | RangeError
  | NotSupportedError
  | InvalidStateError
  | TypeError

text \<open>
  \<^verbatim>\<open>error.message\<close>. The message of a built-in exception is text of the implementation;
  its name stands for it.
\<close>

fun error_message :: "error \<Rightarrow> string" where
  "error_message (Error m) = m"
| "error_message RangeError = ''RangeError''"
| "error_message NotSupportedError = ''NotSupportedError''"
| "error_message InvalidStateError = ''InvalidStateError''"
| "error_message TypeError = ''TypeError''"

text \<open>
  A JavaScript number that is not \<^verbatim>\<open>NaN\<close> is modelled by the real number it denotes.
  The samples of a \<^verbatim>\<open>Float32Array\<close> have 24-bit significands and the code multiplies
  them by \<^verbatim>\<open>0x7FFF\<close> or \<^verbatim>\<open>0x8000\<close> only, and divides 16-bit integers by
  \<^verbatim>\<open>32768.0\<close> only; each of these binary64 operations is exact, so the reals compute
  what the code computes. An infinite sample behaves as any sample beyond \<open>\<plusminus>1\<close>.
\<close>

datatype number = NaN | Num real

fun Math_min :: "number \<Rightarrow> number \<Rightarrow> number" where
  "Math_min (Num a) (Num b) = Num (min a b)"
| "Math_min _ _ = NaN"

fun Math_max :: "number \<Rightarrow> number \<Rightarrow> number" where
  "Math_max (Num a) (Num b) = Num (max a b)"
| "Math_max _ _ = NaN"

fun js_less :: "number \<Rightarrow> number \<Rightarrow> bool" where
  "js_less (Num a) (Num b) = (a < b)"
| "js_less _ _ = False"

fun js_times :: "number \<Rightarrow> number \<Rightarrow> number" where
  "js_times (Num a) (Num b) = Num (a * b)"
| "js_times _ _ = NaN"

text \<open>Truncation towards zero, the first step of \<^verbatim>\<open>ToInt16\<close>.\<close>

definition js_trunc :: "real \<Rightarrow> int" where
  "js_trunc v = (if v < 0 then - \<lfloor>- v\<rfloor> else \<lfloor>v\<rfloor>)"

text \<open>
  Storing a number into an \<^verbatim>\<open>Int16Array\<close> applies \<^verbatim>\<open>ToInt16\<close>: \<^verbatim>\<open>NaN\<close> becomes 0,
  anything else is truncated towards zero and reduced modulo \<open>2 ^ 16\<close>.
\<close>

fun ToInt16 :: "number \<Rightarrow> 16 word" where
  "ToInt16 NaN = 0"
| "ToInt16 (Num v) = word_of_int (js_trunc v)"

datatype js_value =
    JUndefined
  | JNull
  | JBoolean bool
  | JNumber number
  | JString string
  | JObject nat

fun truthy :: "js_value \<Rightarrow> bool" where
  "truthy JUndefined = False"
| "truthy JNull = False"
| "truthy (JBoolean b) = b"
| "truthy (JNumber NaN) = False"
| "truthy (JNumber (Num x)) = (x \<noteq> 0)"
| "truthy (JString s) = (s \<noteq> [])"
| "truthy (JObject _) = True"

text \<open>A value that is a string or \<^verbatim>\<open>undefined\<close>: truthy when present and not empty.\<close>

fun str_truthy :: "string option \<Rightarrow> bool" where
  "str_truthy None = False"
| "str_truthy (Some s) = (s \<noteq> [])"

text \<open>String conversion of such a value, as \<^verbatim>\<open>+=\<close> and template literals do it.\<close>

fun str_or_undefined :: "string option \<Rightarrow> string" where
  "str_or_undefined None = ''undefined''"
| "str_or_undefined (Some s) = s"

text \<open>\<^verbatim>\<open>xs.slice(0, end)\<close>: a negative end counts from the back, both are clipped.\<close>

definition slice0 :: "'a list \<Rightarrow> int \<Rightarrow> 'a list" where
  "slice0 xs e =
     (let n = int (length xs);
          k = (if e < 0 then max (n + e) 0 else min e n)
      in take (nat k) xs)"

text \<open>\<^verbatim>\<open>xs[i]\<close>: \<^verbatim>\<open>undefined\<close> out of range.\<close>

definition js_index :: "'a list \<Rightarrow> int \<Rightarrow> 'a option" where
  "js_index xs i = (if 0 \<le> i \<and> i < int (length xs) then Some (xs ! nat i) else None)"

subsection \<open>Binary64 arithmetic\<close>

text \<open>
  Sums and quotients of JavaScript numbers are rounded to binary64: to the nearest
  number with a 53-bit significand, ties to the even significand, with the exponent not
  below \<open>-1022\<close> (below that the spacing stays \<open>2 powi (-1074)\<close>). \<open>round_even\<close> rounds to
  an integer, \<open>b64_exponent\<close> finds the binade of a number by searching the exponents
  from 1023 down to \<open>-1022\<close>, and \<open>b64_round\<close> rounds a real number to the spacing of its
  binade. The result is the binary64 result whenever its magnitude is below
  \<open>2 ^ 1024\<close>; larger magnitudes, where binary64 has \<^verbatim>\<open>Infinity\<close>, are not times that a
  session reaches.
\<close>

definition round_even :: "real \<Rightarrow> int" where
  "round_even x =
     (let f = \<lfloor>x\<rfloor>; r = x - real_of_int f
      in if r < 1 / 2 then f
         else if 1 / 2 < r then f + 1
         else if even f then f else f + 1)"

fun exponent_from :: "nat \<Rightarrow> int \<Rightarrow> real \<Rightarrow> int" where
  "exponent_from 0 e x = e"
| "exponent_from (Suc n) e x = (if 2 powi e \<le> x then e else exponent_from n (e - 1) x)"

definition b64_exponent :: "real \<Rightarrow> int" where
  "b64_exponent x = exponent_from 2045 1023 \<bar>x\<bar>"

definition b64_round :: "real \<Rightarrow> real" where
  "b64_round x =
     (let u = 2 powi (b64_exponent x - 52)
      in real_of_int (round_even (x / u)) * u)"

text \<open>A real number that is a binary64 number: rounding keeps it.\<close>

definition representable :: "real \<Rightarrow> bool" where
  "representable x = (b64_round x = x)"

section \<open>Audio sample conversion (LiveClient utilities)\<close>

text \<open>
  \<^verbatim>\<open>floatTo16BitPCM\<close>: each sample is clamped with \<^verbatim>\<open>Math.max(-1, Math.min(1, x))\<close>, scaled
  by \<^verbatim>\<open>0x8000\<close> when negative and by \<^verbatim>\<open>0x7FFF\<close> otherwise, and stored into an
  \<^verbatim>\<open>Int16Array\<close> of the same length.
\<close>

definition floatTo16BitPCM :: "number list \<Rightarrow> 16 word list" where
  "floatTo16BitPCM input =
     map (\<lambda>x. let s = Math_max (Num (- 1)) (Math_min (Num 1) x)
              in ToInt16 (if js_less s (Num 0) then js_times s (Num 0x8000)
                          else js_times s (Num 0x7FFF)))
         input"

text \<open>
  The \<^verbatim>\<open>.buffer\<close> of an \<^verbatim>\<open>Int16Array\<close> and the \<^verbatim>\<open>Int16Array\<close> view of a buffer, in the
  byte order of the platform (little-endian). The view of a buffer of odd length
  raises \<^verbatim>\<open>RangeError\<close>.
\<close>

definition Int16Array_buffer :: "16 word list \<Rightarrow> 8 word list" where
  "Int16Array_buffer ws = concat (map (\<lambda>w. [ucast w, ucast (drop_bit 8 w)]) ws)"

fun int16_view :: "8 word list \<Rightarrow> 16 word list" where
  "int16_view (lo # hi # rest) = (ucast lo OR push_bit 8 (ucast hi)) # int16_view rest"
| "int16_view _ = []"

definition new_Int16Array :: "8 word list \<Rightarrow> error + 16 word list" where
  "new_Int16Array buffer =
     (if odd (length buffer) then Inl RangeError else Inr (int16_view buffer))"

text \<open>\<^verbatim>\<open>pcm16ToFloat32\<close>: every 16-bit sample, read as signed, divided by \<^verbatim>\<open>32768.0\<close>.\<close>

definition pcm16ToFloat32 :: "8 word list \<Rightarrow> error + number list" where
  "pcm16ToFloat32 buffer =
     (case new_Int16Array buffer of
        Inl e \<Rightarrow> Inl e
      | Inr int16 \<Rightarrow> Inr (map (\<lambda>w. Num (real_of_int (sint w) / 32768)) int16))"

text \<open>
  The conversion in the words of the specification: clamp, then round the sample scaled
  by 32767 when it is not negative and by 32768 when it is.
\<close>

definition spec_pcm_round :: "real \<Rightarrow> int" where
  "spec_pcm_round x =
     (let s = max (- 1) (min 1 x)
      in if s \<ge> 0 then round (s * 32767) else round (s * 32768))"

text \<open>The same with truncation towards zero in place of rounding.\<close>

definition pcm_trunc :: "real \<Rightarrow> int" where
  "pcm_trunc x =
     (let s = max (- 1) (min 1 x)
      in if s \<ge> 0 then js_trunc (s * 32767) else js_trunc (s * 32768))"

text \<open>
  \<^verbatim>\<open>base64ToArrayBuffer\<close>: the browser's \<^verbatim>\<open>atob\<close> is a parameter; it yields a binary string
  (one character per byte) or raises. The loop copies the character codes.
\<close>

definition base64ToArrayBuffer :: "(string \<Rightarrow> error + string) \<Rightarrow> string \<Rightarrow> error + 8 word list" where
  "base64ToArrayBuffer atob base64 =
     (case atob base64 of
        Inl e \<Rightarrow> Inl e
      | Inr binaryString \<Rightarrow> Inr (map (\<lambda>ch. of_char ch) binaryString))"

section \<open>The live client\<close>

text \<open>
  The browser objects the client holds. An audio context is running or closed and
  remembers the buffer sources started on it, each with its start time and the duration
  of its buffer. A media stream is the list of its tracks, \<open>True\<close> for a live track.
\<close>

datatype context_state = Running | Closed

record AudioContext =
  ctx_state :: context_state
  ctx_started :: "(real \<times> real) list"

record ScriptProcessorNode =
  proc_connected :: bool
  proc_onaudioprocess :: bool

record MediaStreamAudioSourceNode =
  src_connected :: bool

datatype session = Session

datatype source = User | Model

record FunctionCall =
  fc_id :: string
  fc_name :: string
  fc_args :: "(string \<times> js_value) list"

record FunctionResponse =
  fr_id :: string
  fr_name :: string
  fr_result :: js_value

text \<open>
  The fields of the class, followed by two observation logs: the calls of the
  \<^verbatim>\<open>onTranscription\<close> and \<^verbatim>\<open>onError\<close> callbacks, and the \<^verbatim>\<open>functionResponses\<close> of every
  \<^verbatim>\<open>sendToolResponse\<close> handed to the session.
\<close>

datatype callback_event = Transcription string source bool | ErrorEvent string

record LiveClient =
  sessionPromise :: "session option"
  inputAudioContext :: "AudioContext option"
  outputAudioContext :: "AudioContext option"
  inputSource :: "MediaStreamAudioSourceNode option"
  processor :: "ScriptProcessorNode option"
  nextStartTime :: real
  stream :: "bool list option"
  currentInputText :: string
  currentOutputText :: string
  callbacks :: "callback_event list"
  toolResponses :: "FunctionResponse list list"

definition new_LiveClient :: LiveClient where
  "new_LiveClient =
     \<lparr> sessionPromise = None, inputAudioContext = None, outputAudioContext = None,
       inputSource = None, processor = None, nextStartTime = 0, stream = None,
       currentInputText = [], currentOutputText = [], callbacks = [], toolResponses = [] \<rparr>"

text \<open>
  The configuration: which optional callbacks are supplied. The tool handler is
  application code; it is a function of the invocation and of an application state
  \<open>'h\<close>, and it resolves with a value or rejects.
\<close>

type_synonym 'h tool_handler = "FunctionCall \<Rightarrow> 'h \<Rightarrow> (error + js_value) \<times> 'h"

record 'h LiveClientConfig =
  onToolCall :: "'h tool_handler option"
  onTranscription :: bool
  onError :: bool

definition new_AudioContext :: AudioContext where
  "new_AudioContext = \<lparr> ctx_state = Running, ctx_started = [] \<rparr>"

text \<open>
  \<^verbatim>\<open>connect\<close>, up to the point where it stores the pending session; the function has no
  \<^verbatim>\<open>await\<close>, so it runs to its end when called.
\<close>

definition connect :: "string option \<Rightarrow> string option \<Rightarrow> LiveClient \<Rightarrow> error + LiveClient" where
  "connect env_API_KEY apiKey c =
     (let key = (if str_truthy apiKey then apiKey else env_API_KEY) in
      if \<not> str_truthy key then Inl (Error ''API Key is missing.'')
      else Inr (c\<lparr> inputAudioContext := Some new_AudioContext,
                   outputAudioContext := Some new_AudioContext,
                   sessionPromise := Some Session \<rparr>))"

definition report_error :: "'h LiveClientConfig \<Rightarrow> string \<Rightarrow> LiveClient \<Rightarrow> LiveClient" where
  "report_error config msg c =
     (if onError config then c\<lparr> callbacks := callbacks c @ [ErrorEvent msg] \<rparr> else c)"

text \<open>
  \<^verbatim>\<open>startAudioInput\<close>, run from \<^verbatim>\<open>onopen\<close>. The outcome of \<^verbatim>\<open>getUserMedia\<close> is a parameter:
  the tracks of the granted stream, or a rejection. \<^verbatim>\<open>createMediaStreamSource\<close> raises
  for a stream without tracks; the \<^verbatim>\<open>catch\<close> reports either failure through \<^verbatim>\<open>onError\<close>.
\<close>

definition startAudioInput ::
  "'h LiveClientConfig \<Rightarrow> (error + bool list) \<Rightarrow> LiveClient \<Rightarrow> LiveClient" where
  "startAudioInput config getUserMedia c =
     (case inputAudioContext c of
        None \<Rightarrow> c
      | Some _ \<Rightarrow>
          (case getUserMedia of
             Inl e \<Rightarrow> report_error config ''Microphone access denied'' c
           | Inr tracks \<Rightarrow>
               (let c1 = c\<lparr> stream := Some tracks \<rparr> in
                if tracks = [] then report_error config ''Microphone access denied'' c1
                else c1\<lparr> inputSource := Some \<lparr> src_connected = True \<rparr>,
                         processor := Some \<lparr> proc_connected = True,
                                            proc_onaudioprocess = True \<rparr> \<rparr>)))"

text \<open>
  \<^verbatim>\<open>createBuffer(1, length, sampleRate)\<close> raises \<^verbatim>\<open>NotSupportedError\<close> for a length of
  zero; the duration of the buffer is the binary64 quotient of its length and its sample
  rate (a length is an integer below \<open>2 ^ 53\<close> and is a binary64 number as it is).
\<close>

record AudioBuffer =
  buf_length :: nat
  buf_sampleRate :: real

definition createBuffer :: "nat \<Rightarrow> real \<Rightarrow> error + AudioBuffer" where
  "createBuffer len rate =
     (if len = 0 then Inl NotSupportedError
      else Inr \<lparr> buf_length = len, buf_sampleRate = rate \<rparr>)"

definition duration :: "AudioBuffer \<Rightarrow> real" where
  "duration b = b64_round (real (buf_length b) / buf_sampleRate b)"

text \<open>
  \<^verbatim>\<open>playAudio\<close>. \<open>currentTime\<close> is the reading of the output context's clock at the call.
  \<^verbatim>\<open>this.nextStartTime += buffer.duration\<close> is a binary64 sum. Every exception is raised
  before the cursor is touched, so a failing call leaves the client as it was.
  (\<^verbatim>\<open>source.start\<close> raises for a negative time only; the clock of a context is never
  negative, so the time passed to it is not.)
\<close>

definition playAudio ::
  "(string \<Rightarrow> error + string) \<Rightarrow> real \<Rightarrow> string \<Rightarrow> LiveClient \<Rightarrow> error + LiveClient" where
  "playAudio atob currentTime base64String c =
     (case outputAudioContext c of
        None \<Rightarrow> Inr c
      | Some ctx \<Rightarrow>
          (case base64ToArrayBuffer atob base64String of
             Inl e \<Rightarrow> Inl e
           | Inr audioData \<Rightarrow>
               (case pcm16ToFloat32 audioData of
                  Inl e \<Rightarrow> Inl e
                | Inr float32Data \<Rightarrow>
                    (case createBuffer (length float32Data) 24000 of
                       Inl e \<Rightarrow> Inl e
                     | Inr buffer \<Rightarrow>
                         (let start = (if nextStartTime c < currentTime then currentTime
                                       else nextStartTime c)
                          in Inr (c\<lparr> outputAudioContext :=
                                        Some (ctx\<lparr> ctx_started :=
                                                ctx_started ctx @ [(start, duration buffer)] \<rparr>),
                                      nextStartTime := b64_round (start + duration buffer) \<rparr>))))))"

text \<open>The chunks scheduled so far on the output context.\<close>

definition scheduled :: "LiveClient \<Rightarrow> (real \<times> real) list" where
  "scheduled c = (case outputAudioContext c of None \<Rightarrow> [] | Some ctx \<Rightarrow> ctx_started ctx)"

text \<open>
  A run of audio chunks, each with the clock reading at its arrival. Each chunk arrives
  in a message of its own; a chunk whose \<^verbatim>\<open>playAudio\<close> raises is lost and the next one
  is handled from the unchanged client.
\<close>

definition play_step ::
  "(string \<Rightarrow> error + string) \<Rightarrow> real \<Rightarrow> string \<Rightarrow> LiveClient \<Rightarrow> LiveClient" where
  "play_step atob t b c = (case playAudio atob t b c of Inl e \<Rightarrow> c | Inr c' \<Rightarrow> c')"

fun playAll ::
  "(string \<Rightarrow> error + string) \<Rightarrow> (real \<times> string) list \<Rightarrow> LiveClient \<Rightarrow> LiveClient" where
  "playAll atob [] c = c"
| "playAll atob ((t, b) # rest) c = playAll atob rest (play_step atob t b c)"

text \<open>The device clock is behind the cursor at every chunk of the run.\<close>

fun clock_behind ::
  "(string \<Rightarrow> error + string) \<Rightarrow> (real \<times> string) list \<Rightarrow> LiveClient \<Rightarrow> bool" where
  "clock_behind atob [] c = True"
| "clock_behind atob ((t, b) # rest) c =
     (t \<le> nextStartTime c \<and> clock_behind atob rest (play_step atob t b c))"

text \<open>
  Chunks \<open>(start, duration)\<close> laid out from a cursor. The end of a chunk is the binary64
  sum of its start and its duration, the value the code computes for it. \<open>no_overlap\<close>:
  each chunk starts at or after the end of the one before; \<open>gapless\<close>: each starts
  exactly there; \<open>end_of\<close>: the end of the last chunk.
\<close>

fun no_overlap :: "real \<Rightarrow> (real \<times> real) list \<Rightarrow> bool" where
  "no_overlap cur [] = True"
| "no_overlap cur ((s, d) # rest) = (cur \<le> s \<and> no_overlap (b64_round (s + d)) rest)"

fun gapless :: "real \<Rightarrow> (real \<times> real) list \<Rightarrow> bool" where
  "gapless cur [] = True"
| "gapless cur ((s, d) # rest) = (s = cur \<and> gapless (b64_round (s + d)) rest)"

fun end_of :: "real \<Rightarrow> (real \<times> real) list \<Rightarrow> real" where
  "end_of cur [] = cur"
| "end_of cur ((s, d) # rest) = end_of (b64_round (s + d)) rest"

subsection \<open>The message handler\<close>

record LiveServerMessage =
  msg_audioData :: "string option"
  msg_inputTranscription :: "string option option"
  msg_outputTranscription :: "string option option"
  msg_turnComplete :: bool
  msg_toolCall :: "FunctionCall list option option"

definition emit_transcription ::
  "'h LiveClientConfig \<Rightarrow> string \<Rightarrow> source \<Rightarrow> bool \<Rightarrow> LiveClient \<Rightarrow> LiveClient" where
  "emit_transcription config txt src isFinal c =
     (if onTranscription config
      then c\<lparr> callbacks := callbacks c @ [Transcription txt src isFinal] \<rparr> else c)"

text \<open>The transcription part of \<^verbatim>\<open>onmessage\<close>: the three \<^verbatim>\<open>if\<close> statements in order.\<close>

definition handle_transcription ::
  "'h LiveClientConfig \<Rightarrow> LiveServerMessage \<Rightarrow> LiveClient \<Rightarrow> LiveClient" where
  "handle_transcription config message c =
     (let c1 = (case msg_inputTranscription message of
                  None \<Rightarrow> c
                | Some t \<Rightarrow>
                    (let c' = c\<lparr> currentInputText := currentInputText c @ str_or_undefined t \<rparr>
                     in emit_transcription config (currentInputText c') User False c'));
          c2 = (case msg_outputTranscription message of
                  None \<Rightarrow> c1
                | Some t \<Rightarrow>
                    (let c' = c1\<lparr> currentOutputText := currentOutputText c1 @ str_or_undefined t \<rparr>
                     in emit_transcription config (currentOutputText c') Model False c'))
      in if msg_turnComplete message
         then (emit_transcription config (currentOutputText c2) Model True c2)
                \<lparr> currentInputText := [], currentOutputText := [] \<rparr>
         else c2)"

text \<open>
  The loop over \<^verbatim>\<open>message.toolCall.functionCalls\<close>: the handler is awaited for each
  invocation in turn and a response is pushed; a rejection leaves the loop and the
  handler as an exception. Without a handler nothing is pushed.
\<close>

fun callTools ::
  "'h tool_handler option \<Rightarrow> FunctionCall list \<Rightarrow> FunctionResponse list \<Rightarrow> 'h
     \<Rightarrow> (error + FunctionResponse list) \<times> 'h" where
  "callTools handler [] responses h = (Inr responses, h)"
| "callTools None (fc # rest) responses h = callTools None rest responses h"
| "callTools (Some f) (fc # rest) responses h =
     (case f fc h of
        (Inl e, h') \<Rightarrow> (Inl e, h')
      | (Inr result, h') \<Rightarrow>
          callTools (Some f) rest
            (responses @ [\<lparr> fr_id = fc_id fc, fr_name = fc_name fc,
                            fr_result = (if truthy result then result else JString ''success'') \<rparr>])
            h')"

definition sendToolResponse :: "FunctionResponse list \<Rightarrow> LiveClient \<Rightarrow> LiveClient" where
  "sendToolResponse responses c =
     (case sessionPromise c of
        None \<Rightarrow> c
      | Some _ \<Rightarrow> c\<lparr> toolResponses := toolResponses c @ [responses] \<rparr>)"

text \<open>
  \<^verbatim>\<open>onmessage\<close>: the exception that ended the handler, if any, with the client and the
  application state it leaves behind.
\<close>

definition onmessage ::
  "'h LiveClientConfig \<Rightarrow> (string \<Rightarrow> error + string) \<Rightarrow> real \<Rightarrow> LiveServerMessage
     \<Rightarrow> LiveClient \<times> 'h \<Rightarrow> error option \<times> LiveClient \<times> 'h" where
  "onmessage config atob currentTime message st =
     (case st of (c, h) \<Rightarrow>
      (case (case msg_audioData message of
               None \<Rightarrow> Inr c
             | Some audioData \<Rightarrow>
                 if audioData \<noteq> [] then playAudio atob currentTime audioData c else Inr c) of
         Inl e \<Rightarrow> (Some e, c, h)
       | Inr c1 \<Rightarrow>
           (let c2 = handle_transcription config message c1 in
            case msg_toolCall message of
              None \<Rightarrow> (None, c2, h)
            | Some None \<Rightarrow> (Some TypeError, c2, h)
            | Some (Some functionCalls) \<Rightarrow>
                (case callTools (onToolCall config) functionCalls [] h of
                   (Inl e, h') \<Rightarrow> (Some e, c2, h')
                 | (Inr responses, h') \<Rightarrow> (None, sendToolResponse responses c2, h')))))"

text \<open>
  Messages arrive one after the other, each with the clock reading at its arrival; the
  exception of one handler run does not reach the next.
\<close>

fun receive ::
  "'h LiveClientConfig \<Rightarrow> (string \<Rightarrow> error + string) \<Rightarrow> (real \<times> LiveServerMessage) list
     \<Rightarrow> LiveClient \<times> 'h \<Rightarrow> LiveClient \<times> 'h" where
  "receive config atob [] st = st"
| "receive config atob ((t, m) # rest) st = receive config atob rest (snd (onmessage config atob t m st))"

definition empty_message :: LiveServerMessage where
  "empty_message =
     \<lparr> msg_audioData = None, msg_inputTranscription = None, msg_outputTranscription = None,
       msg_turnComplete = False, msg_toolCall = None \<rparr>"

definition input_fragment :: "string \<Rightarrow> LiveServerMessage" where
  "input_fragment txt = empty_message\<lparr> msg_inputTranscription := Some (Some txt) \<rparr>"

definition output_fragment :: "string \<Rightarrow> LiveServerMessage" where
  "output_fragment txt = empty_message\<lparr> msg_outputTranscription := Some (Some txt) \<rparr>"

definition turn_complete :: LiveServerMessage where
  "turn_complete = empty_message\<lparr> msg_turnComplete := True \<rparr>"

text \<open>
  The audio part of a message is handled without an exception: the message has no audio
  chunk, or an empty one, or \<^verbatim>\<open>playAudio\<close> returns on it. \<open>audio_plays_all\<close>: so it is for
  every message of a run, each from the client the messages before it leave.
\<close>

definition audio_plays ::
  "(string \<Rightarrow> error + string) \<Rightarrow> real \<Rightarrow> LiveServerMessage \<Rightarrow> LiveClient \<Rightarrow> bool" where
  "audio_plays atob t message c =
     (case msg_audioData message of
        None \<Rightarrow> True
      | Some audioData \<Rightarrow>
          if audioData = [] then True
          else (case playAudio atob t audioData c of Inl e \<Rightarrow> False | Inr c' \<Rightarrow> True))"

fun audio_plays_all ::
  "'h LiveClientConfig \<Rightarrow> (string \<Rightarrow> error + string) \<Rightarrow> (real \<times> LiveServerMessage) list
     \<Rightarrow> LiveClient \<times> 'h \<Rightarrow> bool" where
  "audio_plays_all config atob [] st = True"
| "audio_plays_all config atob ((t, m) # rest) st =
     (audio_plays atob t m (fst st)
      \<and> audio_plays_all config atob rest (snd (onmessage config atob t m st)))"

text \<open>
  The transcription fragments a message carries for each source (none or one; a
  transcription object without a text gives the string \<^verbatim>\<open>undefined\<close>, as \<^verbatim>\<open>+=\<close> does), the
  fragments of a run of messages in arrival order, and the calls of \<^verbatim>\<open>onTranscription\<close>
  for one source among logged events.
\<close>

definition input_texts :: "LiveServerMessage \<Rightarrow> string list" where
  "input_texts message =
     (case msg_inputTranscription message of None \<Rightarrow> [] | Some t \<Rightarrow> [str_or_undefined t])"

definition output_texts :: "LiveServerMessage \<Rightarrow> string list" where
  "output_texts message =
     (case msg_outputTranscription message of None \<Rightarrow> [] | Some t \<Rightarrow> [str_or_undefined t])"

definition input_fragments :: "(real \<times> LiveServerMessage) list \<Rightarrow> string list" where
  "input_fragments ms = concat (map (\<lambda>(t, m). input_texts m) ms)"

definition output_fragments :: "(real \<times> LiveServerMessage) list \<Rightarrow> string list" where
  "output_fragments ms = concat (map (\<lambda>(t, m). output_texts m) ms)"

fun event_source :: "callback_event \<Rightarrow> source option" where
  "event_source (Transcription txt src isFinal) = Some src"
| "event_source (ErrorEvent msg) = None"

definition from_source :: "source \<Rightarrow> callback_event list \<Rightarrow> callback_event list" where
  "from_source src events = filter (\<lambda>e. event_source e = Some src) events"

text \<open>The texts an accumulator holds after each fragment of a sequence.\<close>

fun accumulations :: "string \<Rightarrow> string list \<Rightarrow> string list" where
  "accumulations acc [] = []"
| "accumulations acc (f # fs) = (acc @ f) # accumulations (acc @ f) fs"

text \<open>
  What the tool handler does on a batch, by itself: the values it resolves with, in
  order, or the first rejection; and the application state it leaves.
\<close>

fun tool_results ::
  "'h tool_handler \<Rightarrow> FunctionCall list \<Rightarrow> 'h \<Rightarrow> (error + js_value list) \<times> 'h" where
  "tool_results f [] h = (Inr [], h)"
| "tool_results f (fc # rest) h =
     (case f fc h of
        (Inl e, h') \<Rightarrow> (Inl e, h')
      | (Inr v, h') \<Rightarrow>
          (case tool_results f rest h' of
             (Inl e, h'') \<Rightarrow> (Inl e, h'')
           | (Inr vs, h'') \<Rightarrow> (Inr (v # vs), h'')))"

text \<open>The response for one invocation and the value its handler resolved with.\<close>

definition tool_response :: "FunctionCall \<Rightarrow> js_value \<Rightarrow> FunctionResponse" where
  "tool_response fc v =
     \<lparr> fr_id = fc_id fc, fr_name = fc_name fc,
       fr_result = (if truthy v then v else JString ''success'') \<rparr>"

subsection \<open>Teardown\<close>

text \<open>
  \<^verbatim>\<open>AudioContext.close()\<close> rejects with \<^verbatim>\<open>InvalidStateError\<close> when the context is already
  closed (Web Audio API, the steps of \<^verbatim>\<open>close\<close>); otherwise the context becomes closed.
\<close>

definition close_context :: "AudioContext \<Rightarrow> error + AudioContext" where
  "close_context ctx =
     (if ctx_state ctx = Closed then Inl InvalidStateError
      else Inr (ctx\<lparr> ctx_state := Closed \<rparr>))"

text \<open>
  \<^verbatim>\<open>disconnect\<close>, statement by statement. Stopping a track and disconnecting a node never
  raise; closing a context may.
\<close>

definition stop_tracks :: "LiveClient \<Rightarrow> LiveClient" where
  "stop_tracks c =
     (case stream c of
        None \<Rightarrow> c
      | Some tracks \<Rightarrow> c\<lparr> stream := Some (map (\<lambda>track. False) tracks) \<rparr>)"

definition detach_processor :: "LiveClient \<Rightarrow> LiveClient" where
  "detach_processor c =
     (case processor c of
        None \<Rightarrow> c
      | Some p \<Rightarrow> c\<lparr> processor :=
                    Some (p\<lparr> proc_connected := False, proc_onaudioprocess := False \<rparr>) \<rparr>)"

definition detach_source :: "LiveClient \<Rightarrow> LiveClient" where
  "detach_source c =
     (case inputSource c of
        None \<Rightarrow> c
      | Some n \<Rightarrow> c\<lparr> inputSource := Some (n\<lparr> src_connected := False \<rparr>) \<rparr>)"

definition close_input :: "LiveClient \<Rightarrow> error + LiveClient" where
  "close_input c =
     (case inputAudioContext c of
        None \<Rightarrow> Inr c
      | Some ctx \<Rightarrow>
          (case close_context ctx of
             Inl e \<Rightarrow> Inl e
           | Inr ctx' \<Rightarrow> Inr (c\<lparr> inputAudioContext := Some ctx' \<rparr>)))"

definition close_output :: "LiveClient \<Rightarrow> error + LiveClient" where
  "close_output c =
     (case outputAudioContext c of
        None \<Rightarrow> Inr c
      | Some ctx \<Rightarrow>
          (case close_context ctx of
             Inl e \<Rightarrow> Inl e
           | Inr ctx' \<Rightarrow> Inr (c\<lparr> outputAudioContext := Some ctx' \<rparr>)))"

text \<open>
  The result is the exception that ended the call, if any, with the client as the call
  left it.
\<close>

definition disconnect :: "LiveClient \<Rightarrow> error option \<times> LiveClient" where
  "disconnect c =
     (let c3 = detach_source (detach_processor (stop_tracks c))
      in case close_input c3 of
           Inl e \<Rightarrow> (Some e, c3)
         | Inr c4 \<Rightarrow>
             (case close_output c4 of
                Inl e \<Rightarrow> (Some e, c4)
              | Inr c5 \<Rightarrow>
                  (None, c5\<lparr> sessionPromise := None,
                             currentInputText := [], currentOutputText := [] \<rparr>)))"

text \<open>What a torn-down client looks like: nothing live, nothing connected, nothing open.\<close>

definition torn_down :: "LiveClient \<Rightarrow> bool" where
  "torn_down c =
     ((case stream c of None \<Rightarrow> True | Some tracks \<Rightarrow> list_all (\<lambda>live. \<not> live) tracks) \<and>
      (case processor c of
         None \<Rightarrow> True
       | Some p \<Rightarrow> \<not> proc_connected p \<and> \<not> proc_onaudioprocess p) \<and>
      (case inputSource c of None \<Rightarrow> True | Some n \<Rightarrow> \<not> src_connected n) \<and>
      (case inputAudioContext c of None \<Rightarrow> True | Some ctx \<Rightarrow> ctx_state ctx = Closed) \<and>
      (case outputAudioContext c of None \<Rightarrow> True | Some ctx \<Rightarrow> ctx_state ctx = Closed) \<and>
      sessionPromise c = None \<and> currentInputText c = [] \<and> currentOutputText c = [])"

section \<open>The edit request service\<close>

text \<open>
  The response of \<^verbatim>\<open>generateContent\<close>, as far as the code reads it. Every field is
  optional: \<open>None\<close> is \<^verbatim>\<open>undefined\<close>. A candidate's content is absent, or present with
  or without a list of parts.
\<close>

record Part =
  part_inlineData :: "string option option"
  part_text :: "string option"

record Candidate =
  cand_finishReason :: "string option"
  cand_content :: "Part list option option"

record GenerateContentResponse =
  resp_candidates :: "Candidate list option"

text \<open>\<^verbatim>\<open>candidate.content?.parts\<close>\<close>

fun content_parts :: "Part list option option \<Rightarrow> Part list option" where
  "content_parts None = None"
| "content_parts (Some ps) = ps"

text \<open>The loop over the parts: the first part with \<^verbatim>\<open>inlineData\<close> decides.\<close>

fun find_image :: "Part list \<Rightarrow> error + string" where
  "find_image [] = Inl (Error ''No image data found in response.'')"
| "find_image (part # rest) =
     (case part_inlineData part of
        Some generatedBase64 \<Rightarrow> Inr (''data:image/png;base64,'' @ str_or_undefined generatedBase64)
      | None \<Rightarrow> find_image rest)"

text \<open>
  What both versions of \<^verbatim>\<open>editImage\<close> do with the response, from
  \<^verbatim>\<open>response.candidates?.[0]\<close> to the last \<^verbatim>\<open>throw\<close>.
\<close>

definition read_response :: "GenerateContentResponse \<Rightarrow> error + string" where
  "read_response response =
     (case (case resp_candidates response of None \<Rightarrow> None | Some cs \<Rightarrow> js_index cs 0) of
        None \<Rightarrow> Inl (Error ''No candidates returned from Gemini API.'')
      | Some candidate \<Rightarrow>
          (let parts = content_parts (cand_content candidate) in
           if str_truthy (cand_finishReason candidate) \<and> cand_finishReason candidate \<noteq> Some ''STOP''
              \<and> (case parts of None \<Rightarrow> True | Some ps \<Rightarrow> length ps = 0)
           then Inl (Error (''Gemini refused to generate content. Reason: ''
                            @ str_or_undefined (cand_finishReason candidate)))
           else case parts of
                  None \<Rightarrow> Inl (Error ''No content generated from Gemini (empty parts).'')
                | Some ps \<Rightarrow>
                    if length ps = 0
                    then Inl (Error ''No content generated from Gemini (empty parts).'')
                    else find_image ps))"

text \<open>
  \<^verbatim>\<open>editImage\<close> of \<^verbatim>\<open>services/geminiService.ts\<close>. The SDK is a parameter: \<open>sdk key\<close> is the
  outcome of constructing the client with that key and awaiting \<^verbatim>\<open>generateContent\<close>, a
  response or a rejection. The request (image data, mime type, prompt) is built by string
  operations that cannot raise and do not influence what follows. The \<^verbatim>\<open>catch\<close> logs the
  error and throws it again.
\<close>

definition editImage ::
  "(string option \<Rightarrow> error + GenerateContentResponse) \<Rightarrow> string option \<Rightarrow> string \<Rightarrow> string
     \<Rightarrow> error + string" where
  "editImage sdk env_API_KEY base64Image prompt =
     (case sdk env_API_KEY of
        Inl e \<Rightarrow> Inl e
      | Inr response \<Rightarrow> read_response response)"

text \<open>
  The other version of \<^verbatim>\<open>editImage\<close> in the repository, with a third argument \<^verbatim>\<open>apiKey\<close> and
  a check of the key before the client is built.
\<close>

definition editImage_keyed ::
  "(string option \<Rightarrow> error + GenerateContentResponse) \<Rightarrow> string option \<Rightarrow> string \<Rightarrow> string
     \<Rightarrow> string option \<Rightarrow> error + string" where
  "editImage_keyed sdk env_API_KEY base64Image prompt apiKey =
     (let key = (if str_truthy apiKey then apiKey else env_API_KEY) in
      if \<not> str_truthy key
      then Inl (Error ''API Key is missing. Please provide a valid Gemini API Key in settings.'')
      else case sdk key of
             Inl e \<Rightarrow> Inl e
           | Inr response \<Rightarrow> read_response response)"

text \<open>
  The conditions under which the service is specified to fail, in the words of its
  contract: no candidate; a finish reason other than \<open>STOP\<close> with no content; content
  without parts; no part with image data. \<open>first_candidate\<close> and \<open>parts_of\<close> name what the
  conditions speak about.
\<close>

definition first_candidate :: "GenerateContentResponse \<Rightarrow> Candidate option" where
  "first_candidate r =
     (case resp_candidates r of None \<Rightarrow> None | Some [] \<Rightarrow> None | Some (c # _) \<Rightarrow> Some c)"

definition parts_of :: "Candidate \<Rightarrow> Part list" where
  "parts_of c =
     (case cand_content c of None \<Rightarrow> [] | Some None \<Rightarrow> [] | Some (Some ps) \<Rightarrow> ps)"

definition spec_unusable :: "GenerateContentResponse \<Rightarrow> bool" where
  "spec_unusable r =
     (case first_candidate r of
        None \<Rightarrow> True
      | Some c \<Rightarrow>
          (cand_finishReason c \<noteq> None \<and> cand_finishReason c \<noteq> Some ''STOP'' \<and> parts_of c = [])
          \<or> parts_of c = []
          \<or> list_all (\<lambda>p. part_inlineData p = None) (parts_of c))"

section \<open>The controller: edit history\<close>

datatype AppState = IDLE | ANALYZING | PROCESSING | COMPLETE | ERROR

datatype Language = Am | En

datatype log_type = Info | Warning | Success | Failure

record ImageHistoryItem =
  item_id :: string
  item_url :: string
  item_prompt :: string
  item_timestamp :: nat

text \<open>A log entry without its random id and its clock time.\<close>

record LogEntry =
  log_message :: string
  log_type :: log_type

text \<open>
  The state of the component the claims speak about, and the timers set with
  \<^verbatim>\<open>setTimeout\<close>: the delay and the \<^verbatim>\<open>appState\<close> the timer will set.
\<close>

record App =
  currentImage :: "string option"
  appState :: AppState
  logs :: "LogEntry list"
  history :: "ImageHistoryItem list"
  historyIndex :: int
  language :: Language
  timers :: "(nat \<times> AppState) list"

text \<open>The Amharic texts of the source, as their UTF-8 bytes.\<close>

definition MSG_ORIGINAL_AM :: string where
  "MSG_ORIGINAL_AM =
     [CHR 0xE1, CHR 0x8B, CHR 0xA8, CHR 0xE1, CHR 0x88, CHR 0x98, CHR 0xE1, CHR 0x8C,
      CHR 0x80, CHR 0xE1, CHR 0x88, CHR 0x98, CHR 0xE1, CHR 0x88, CHR 0xAA, CHR 0xE1,
      CHR 0x8B, CHR 0xAB, CHR 0x20, CHR 0xE1, CHR 0x88, CHR 0x9D, CHR 0xE1, CHR 0x88,
      CHR 0xB5, CHR 0xE1, CHR 0x88, CHR 0x8D]"

definition MSG_UPLOADED :: string where
  "MSG_UPLOADED =
     [CHR 0xE1, CHR 0x89, CHR 0xB0, CHR 0xE1, CHR 0x8C, CHR 0xAD, CHR 0xE1, CHR 0x8A,
      CHR 0x97, CHR 0xE1, CHR 0x88, CHR 0x8D, CHR 0x3A, CHR 0x20]"

definition MSG_EDIT_DONE :: string where
  "MSG_EDIT_DONE =
     [CHR 0xE1, CHR 0x88, CHR 0x9B, CHR 0xE1, CHR 0x88, CHR 0xBB, CHR 0xE1, CHR 0x88,
      CHR 0xBB, CHR 0xE1, CHR 0x8B, CHR 0xAB, CHR 0xE1, CHR 0x8B, CHR 0x8D, CHR 0x20,
      CHR 0xE1, CHR 0x89, CHR 0xB0, CHR 0xE1, CHR 0x8C, CHR 0xA0, CHR 0xE1, CHR 0x8A,
      CHR 0x93, CHR 0xE1, CHR 0x89, CHR 0x85, CHR 0xE1, CHR 0x89, CHR 0x8B, CHR 0xE1,
      CHR 0x88, CHR 0x8D]"

definition MSG_UNDO :: string where
  "MSG_UNDO =
     [CHR 0xE1, CHR 0x8B, CHR 0x88, CHR 0xE1, CHR 0x8B, CHR 0xB0, CHR 0x20, CHR 0xE1,
      CHR 0x89, CHR 0x80, CHR 0xE1, CHR 0x8B, CHR 0xB5, CHR 0xE1, CHR 0x88, CHR 0x9E,
      CHR 0xE1, CHR 0x8B, CHR 0x8D, CHR 0x20, CHR 0xE1, CHR 0x89, CHR 0xB0, CHR 0xE1,
      CHR 0x88, CHR 0x98, CHR 0xE1, CHR 0x88, CHR 0x8D, CHR 0xE1, CHR 0x88, CHR 0xB7,
      CHR 0xE1, CHR 0x88, CHR 0x8D]"

definition MSG_REDO :: string where
  "MSG_REDO =
     [CHR 0xE1, CHR 0x8B, CHR 0x88, CHR 0xE1, CHR 0x8B, CHR 0xB0, CHR 0x20, CHR 0xE1,
      CHR 0x8D, CHR 0x8A, CHR 0xE1, CHR 0x89, CHR 0xB5, CHR 0x20, CHR 0xE1, CHR 0x89,
      CHR 0xB0, CHR 0xE1, CHR 0x88, CHR 0x82, CHR 0xE1, CHR 0x8B, CHR 0xB7, CHR 0xE1,
      CHR 0x88, CHR 0x8D]"

definition addLog :: "string \<Rightarrow> log_type \<Rightarrow> App \<Rightarrow> App" where
  "addLog message type s =
     s\<lparr> logs := take 50 (\<lparr> log_message = message, log_type = type \<rparr> # logs s) \<rparr>"

text \<open>The \<^verbatim>\<open>onload\<close> callback of \<^verbatim>\<open>handleImageSelected\<close>, with the data URL read.\<close>

definition handleImageSelected :: "nat \<Rightarrow> string \<Rightarrow> string \<Rightarrow> App \<Rightarrow> App" where
  "handleImageSelected now file_name result s =
     addLog (MSG_UPLOADED @ file_name) Success
       (s\<lparr> currentImage := Some result,
           history := [\<lparr> item_id = ''original'', item_url = result,
                         item_prompt = (if language s = Am then MSG_ORIGINAL_AM
                                        else ''Original Image''),
                         item_timestamp = now \<rparr>],
           historyIndex := 0 \<rparr>)"

text \<open>
  A handler is a closure made at a render: it reads \<^verbatim>\<open>historyIndex\<close> and \<^verbatim>\<open>history\<close> as
  they were at that render (\<open>r\<close>), while the updater functions given to \<^verbatim>\<open>setHistory\<close> and
  \<^verbatim>\<open>setHistoryIndex\<close> receive the state of the moment (\<open>s\<close>). A handler called from the
  latest render has \<open>r = s\<close>.

  \<^verbatim>\<open>handleExternalEdit\<close>: \<open>rnd\<close> and \<open>now\<close> are the random id and the clock time of the new
  item. The result is the string the promise resolves with, and the new state.
\<close>

definition handleExternalEdit ::
  "App \<Rightarrow> (string option \<Rightarrow> error + GenerateContentResponse) \<Rightarrow> string option \<Rightarrow> string \<Rightarrow> nat
     \<Rightarrow> string \<Rightarrow> string \<Rightarrow> App \<Rightarrow> string \<times> App" where
  "handleExternalEdit r sdk env_API_KEY rnd now img txt s =
     (let s1 = s\<lparr> appState := ANALYZING \<rparr> in
      case editImage sdk env_API_KEY img txt of
        Inr enhancedImage \<Rightarrow>
          (let s2 = s1\<lparr> currentImage := Some enhancedImage \<rparr>;
               newItem = \<lparr> item_id = rnd, item_url = enhancedImage, item_prompt = txt,
                           item_timestamp = now \<rparr>;
               s3 = s2\<lparr> history := slice0 (history s2) (historyIndex r + 1) @ [newItem] \<rparr>;
               s4 = s3\<lparr> historyIndex := historyIndex s3 + 1 \<rparr>;
               s5 = addLog MSG_EDIT_DONE Success s4
           in (''Image edited successfully'', s5\<lparr> appState := IDLE \<rparr>))
      | Inl e \<Rightarrow>
          (let message = (if error_message e \<noteq> [] then error_message e
                          else ''Edit Failed'');
               s2 = addLog message Failure s1;
               s3 = s2\<lparr> appState := ERROR \<rparr>
           in (''Failed to edit image'', s3\<lparr> timers := timers s3 @ [(2000, IDLE)] \<rparr>)))"

text \<open>
  \<^verbatim>\<open>handleUndo\<close> and \<^verbatim>\<open>handleRedo\<close>. Reading \<^verbatim>\<open>.url\<close> of an absent item raises
  \<^verbatim>\<open>TypeError\<close>, after the index was set.
\<close>

definition handleUndo :: "App \<Rightarrow> App \<Rightarrow> error option \<times> App" where
  "handleUndo r s =
     (if historyIndex r > 0
      then (let newIndex = historyIndex r - 1;
                s1 = s\<lparr> historyIndex := newIndex \<rparr>
            in case js_index (history r) newIndex of
                 None \<Rightarrow> (Some TypeError, s1)
               | Some item \<Rightarrow>
                   (None, addLog MSG_UNDO Warning (s1\<lparr> currentImage := Some (item_url item) \<rparr>)))
      else (None, s))"

definition handleRedo :: "App \<Rightarrow> App \<Rightarrow> error option \<times> App" where
  "handleRedo r s =
     (if historyIndex r < int (length (history r)) - 1
      then (let newIndex = historyIndex r + 1;
                s1 = s\<lparr> historyIndex := newIndex \<rparr>
            in case js_index (history r) newIndex of
                 None \<Rightarrow> (Some TypeError, s1)
               | Some item \<Rightarrow>
                   (None, addLog MSG_REDO Success (s1\<lparr> currentImage := Some (item_url item) \<rparr>)))
      else (None, s))"

text \<open>
  The \<^verbatim>\<open>onToolCall\<close> callback that \<^verbatim>\<open>toggleLiveMode\<close> gives to the live client, for an
  invocation named \<open>name\<close> whose \<^verbatim>\<open>prompt\<close> argument is the string \<open>editPrompt\<close>. The callback
  is made once, at the render \<open>r\<close> at which the live mode is started, and the client keeps
  it for the whole session: \<^verbatim>\<open>currentImage\<close> and \<^verbatim>\<open>handleExternalEdit\<close> in it are those of
  that render, whatever the state \<open>s\<close> has become. The result is the value the callback
  resolves with, and the new state.
\<close>

definition live_onToolCall ::
  "App \<Rightarrow> (string option \<Rightarrow> error + GenerateContentResponse) \<Rightarrow> string option \<Rightarrow> string \<Rightarrow> nat
     \<Rightarrow> string \<Rightarrow> string \<Rightarrow> App \<Rightarrow> js_value \<times> App" where
  "live_onToolCall r sdk env_API_KEY rnd now name editPrompt s =
     (if name = ''edit_image''
      then (let s1 = addLog (''Live Command: '' @ [CHR 0x22] @ editPrompt @ [CHR 0x22]) Info s
            in case currentImage r of
                 None \<Rightarrow> (JString ''No image to edit'', s1)
               | Some img \<Rightarrow>
                   if img \<noteq> []
                   then (case handleExternalEdit r sdk env_API_KEY rnd now img editPrompt s1 of
                           (result, s2) \<Rightarrow> (JString result, s2))
                   else (JString ''No image to edit'', s1))
      else (JUndefined, s))"

section \<open>Example inputs\<close>

text \<open>
  Concrete inputs at which the theorems below are instantiated: a message that carries a
  tool-call batch only, an invocation, a tool handler whose state counts its invocations,
  a configuration with every callback, and a client after \<^verbatim>\<open>connect\<close> and a granted
  microphone.
\<close>

definition tool_call_message :: "FunctionCall list \<Rightarrow> LiveServerMessage" where
  "tool_call_message fcs = empty_message\<lparr> msg_toolCall := Some (Some fcs) \<rparr>"

definition example_call :: "string \<Rightarrow> string \<Rightarrow> FunctionCall" where
  "example_call i n =
     \<lparr> fc_id = i, fc_name = n, fc_args = [(''prompt'', JString ''make it black and white'')] \<rparr>"

definition example_handler :: "nat tool_handler" where
  "example_handler fc h =
     ((if fc_name fc = ''edit_image'' then Inr (JString ''Image edited successfully'')
       else if fc_name fc = ''noop'' then Inr JUndefined
       else if fc_name fc = ''check'' then Inr (JBoolean False)
       else Inl (Error ''unknown tool'')), Suc h)"

definition example_config :: "nat LiveClientConfig" where
  "example_config =
     \<lparr> onToolCall = Some example_handler, onTranscription = True, onError = True \<rparr>"

definition example_client :: LiveClient where
  "example_client =
     (case connect None (Some ''key'') new_LiveClient of
        Inl e \<Rightarrow> new_LiveClient
      | Inr c \<Rightarrow> startAudioInput example_config (Inr [True]) c)"

text \<open>
  A response with one candidate whose second part carries image data; an SDK that
  returns it when given a key and rejects otherwise; an SDK whose request fails; and the
  state of the controller when it is mounted.
\<close>

definition example_response :: GenerateContentResponse where
  "example_response =
     \<lparr> resp_candidates = Some
         [\<lparr> cand_finishReason = Some ''STOP'',
            cand_content = Some (Some
              [\<lparr> part_inlineData = None, part_text = Some ''Here is the image'' \<rparr>,
               \<lparr> part_inlineData = Some (Some ''QUJD''), part_text = None \<rparr>]) \<rparr>] \<rparr>"

definition example_sdk :: "string option \<Rightarrow> error + GenerateContentResponse" where
  "example_sdk key =
     (if str_truthy key then Inr example_response
      else Inl (Error ''An API Key must be set when running in a browser''))"

definition failing_sdk :: "string option \<Rightarrow> error + GenerateContentResponse" where
  "failing_sdk key = Inl (Error ''fetch failed'')"

definition initial_App :: App where
  "initial_App =
     \<lparr> currentImage = None, appState = IDLE, logs = [], history = [], historyIndex = - 1,
       language = Am, timers = [] \<rparr>"

section \<open>Sample conversion: what is stored and what comes back\<close>

lemma int16_bytes_roundtrip:
  "(ucast (ucast w :: 8 word) OR push_bit 8 (ucast (ucast (drop_bit 8 w) :: 8 word))) = (w :: 16 word)"
  by (rule bit_word_eqI) (auto simp: bit_simps)

lemma int16_view_buffer: "int16_view (Int16Array_buffer ws) = ws"
  by (induction ws) (simp_all add: Int16Array_buffer_def int16_bytes_roundtrip)

lemma length_Int16Array_buffer: "length (Int16Array_buffer ws) = 2 * length ws"
  by (induction ws) (simp_all add: Int16Array_buffer_def)

lemma js_trunc_nonneg:
  assumes "0 \<le> v" "v \<le> real_of_int n"
  shows "0 \<le> js_trunc v \<and> js_trunc v \<le> n"
proof -
  have "js_trunc v = \<lfloor>v\<rfloor>" using assms by (simp add: js_trunc_def)
  moreover have "0 \<le> \<lfloor>v\<rfloor>" using assms by simp
  moreover have "\<lfloor>v\<rfloor> \<le> n" using assms by (simp add: floor_le_iff)
  ultimately show ?thesis by simp
qed

lemma js_trunc_neg:
  assumes "v < 0" "- real_of_int n \<le> v"
  shows "- n \<le> js_trunc v \<and> js_trunc v \<le> 0"
proof -
  have "js_trunc v = - \<lfloor>- v\<rfloor>" using assms by (simp add: js_trunc_def)
  moreover have "0 \<le> \<lfloor>- v\<rfloor>" using assms by simp
  moreover have "\<lfloor>- v\<rfloor> \<le> n" using assms by (simp add: floor_le_iff)
  ultimately show ?thesis by simp
qed

text \<open>The truncated value always fits 16 bits: \<^verbatim>\<open>ToInt16\<close> never wraps here.\<close>

lemma pcm_trunc_range: "- 32768 \<le> pcm_trunc x \<and> pcm_trunc x \<le> 32767"
proof -
  define s where "s = max (- 1) (min 1 x)"
  have b: "- 1 \<le> s" "s \<le> 1" by (simp_all add: s_def)
  show ?thesis
  proof (cases "0 \<le> s")
    case True
    have "s * 32767 \<le> real_of_int 32767" using b by simp
    moreover have "0 \<le> s * 32767" using True by simp
    ultimately have "0 \<le> js_trunc (s * 32767) \<and> js_trunc (s * 32767) \<le> 32767"
      by (rule js_trunc_nonneg[rotated])
    then show ?thesis using True by (simp add: pcm_trunc_def s_def[symmetric])
  next
    case False
    have "- real_of_int 32768 \<le> s * 32768" using b by simp
    moreover have "s * 32768 < 0" using False by simp
    ultimately have "- 32768 \<le> js_trunc (s * 32768) \<and> js_trunc (s * 32768) \<le> 0"
      by (rule js_trunc_neg[rotated])
    then show ?thesis using False by (simp add: pcm_trunc_def s_def[symmetric])
  qed
qed

lemma sint_word_of_int16:
  "- 32768 \<le> k \<Longrightarrow> k \<le> 32767 \<Longrightarrow> sint (word_of_int k :: 16 word) = k"
  by (simp add: sint_sbintrunc' signed_take_bit_int_eq_self)

lemma sint_pcm_trunc: "sint (word_of_int (pcm_trunc x) :: 16 word) = pcm_trunc x"
  using pcm_trunc_range[of x] by (simp add: sint_word_of_int16)

lemma clamp_Num:
  "Math_max (Num (- 1)) (Math_min (Num 1) (Num x)) = Num (max (- 1) (min 1 x))"
  by simp

lemma pcm_store:
  "(let s = Math_max (Num (- 1)) (Math_min (Num 1) (Num x))
    in ToInt16 (if js_less s (Num 0) then js_times s (Num 0x8000) else js_times s (Num 0x7FFF)))
   = word_of_int (pcm_trunc x)"
proof -
  define s where "s = max (- 1) (min 1 x)"
  show ?thesis
    unfolding clamp_Num Let_def pcm_trunc_def s_def[symmetric]
    by (cases "s < 0") (simp_all add: not_less)
qed

lemma floatTo16BitPCM_Num:
  "floatTo16BitPCM (map Num xs) = map (\<lambda>x. word_of_int (pcm_trunc x)) xs"
  unfolding floatTo16BitPCM_def map_map comp_def pcm_store ..

text \<open>A \<^verbatim>\<open>NaN\<close> sample is not clamped; it is stored as 0.\<close>

lemma floatTo16BitPCM_NaN: "floatTo16BitPCM [NaN] = [0]"
  by (simp add: floatTo16BitPCM_def)

text \<open>
  Claim C1, as stated, fails: the store into the \<^verbatim>\<open>Int16Array\<close> truncates, it does not
  round. The sample \<open>1/4\<close> scales to \<open>8191.75\<close>, which is no tie: the code stores 8191,
  rounding to the nearest integer gives 8192.
\<close>

theorem C1_counterexample:
  "map sint (floatTo16BitPCM (map Num [1 / 4])) \<noteq> map spec_pcm_round [1 / 4]"
  by (simp add: floatTo16BitPCM_def js_trunc_def spec_pcm_round_def round_def)

text \<open>
  Claim C1, amended: for every buffer of numeric samples, \<^verbatim>\<open>floatTo16BitPCM\<close> yields,
  element by element, the signed 16-bit integer obtained by clamping the sample to
  \<open>[-1, 1]\<close> and truncating towards zero its product with 32767 when it is not negative
  and with 32768 when it is negative.
\<close>

theorem C1_amended:
  "map sint (floatTo16BitPCM (map Num xs)) = map pcm_trunc xs"
  by (simp add: floatTo16BitPCM_Num comp_def sint_pcm_trunc)

theorem C1_amended_witness:
  "map sint (floatTo16BitPCM [Num (1 / 4), Num (- 1 / 3), Num 7, Num (- 3)])
     = [8191, - 10922, 32767, - 32768]"
  using C1_amended[of "[1 / 4, - 1 / 3, 7, - 3]"]
  by (simp add: pcm_trunc_def js_trunc_def)

subsection \<open>The round trip\<close>

lemma quant_pos:
  fixes f x :: real
  assumes "f \<le> x * 32767" "x * 32767 < f + 1" "0 \<le> x" "x \<le> 1"
  shows "\<bar>f / 32768 - x\<bar> < 2 / 32768"
proof -
  have "f / 32768 - x \<le> 0" using assms by (simp add: field_simps)
  moreover have "x - f / 32768 < 2 / 32768" using assms by (simp add: field_simps)
  ultimately show ?thesis by linarith
qed

lemma quant_neg:
  fixes g x :: real
  assumes "g \<le> - (x * 32768)" "- (x * 32768) < g + 1"
  shows "\<bar>(- g) / 32768 - x\<bar> < 1 / 32768"
proof -
  have "0 \<le> (- g) / 32768 - x" using assms by (simp add: field_simps)
  moreover have "(- g) / 32768 - x < 1 / 32768" using assms by (simp add: field_simps)
  ultimately show ?thesis by linarith
qed

lemma pcm_trunc_err:
  assumes "- 1 \<le> x" "x \<le> 1"
  shows "\<bar>real_of_int (pcm_trunc x) / 32768 - x\<bar> < 2 / 32768"
proof -
  have s: "max (- 1) (min 1 x) = x" using assms by simp
  have p: "pcm_trunc x = (if 0 \<le> x then js_trunc (x * 32767) else js_trunc (x * 32768))"
    unfolding pcm_trunc_def s Let_def ..
  show ?thesis
  proof (cases "0 \<le> x")
    case True
    then have t: "pcm_trunc x = \<lfloor>x * 32767\<rfloor>" by (simp add: p js_trunc_def)
    have "real_of_int \<lfloor>x * 32767\<rfloor> \<le> x * 32767" by (rule of_int_floor_le)
    moreover have "x * 32767 < real_of_int \<lfloor>x * 32767\<rfloor> + 1" by linarith
    ultimately show ?thesis unfolding t using True assms(2) by (rule quant_pos)
  next
    case False
    then have t: "real_of_int (pcm_trunc x) = - real_of_int \<lfloor>- (x * 32768)\<rfloor>"
      by (simp add: p js_trunc_def)
    have "real_of_int \<lfloor>- (x * 32768)\<rfloor> \<le> - (x * 32768)" by (rule of_int_floor_le)
    moreover have "- (x * 32768) < real_of_int \<lfloor>- (x * 32768)\<rfloor> + 1" by linarith
    ultimately have "\<bar>(- real_of_int \<lfloor>- (x * 32768)\<rfloor>) / 32768 - x\<bar> < 1 / 32768"
      by (rule quant_neg)
    then show ?thesis unfolding t by simp
  qed
qed

lemma roundtrip_eq:
  "pcm16ToFloat32 (Int16Array_buffer (floatTo16BitPCM (map Num xs)))
   = Inr (map (\<lambda>x. Num (real_of_int (pcm_trunc x) / 32768)) xs)"
  by (simp add: pcm16ToFloat32_def new_Int16Array_def int16_view_buffer
      length_Int16Array_buffer floatTo16BitPCM_Num comp_def sint_pcm_trunc del: of_int_sint)

text \<open>
  Claim C4, as stated, fails: the sample \<open>65535/65536\<close> lies in \<open>[-1, 1]\<close>, is stored as
  32766 and comes back as \<open>32766/32768\<close>, which is \<open>3/65536\<close> away: more than \<open>1/32768\<close>.
  Positive samples are scaled by 32767 and divided by 32768.
\<close>

theorem C4_counterexample:
  "pcm16ToFloat32 (Int16Array_buffer (floatTo16BitPCM [Num (65535 / 65536)]))
     = Inr [Num (32766 / 32768)]
   \<and> - 1 \<le> (65535 / 65536 :: real) \<and> (65535 / 65536 :: real) \<le> 1
   \<and> \<not> \<bar>32766 / 32768 - 65535 / 65536 :: real\<bar> \<le> 1 / 32768"
  by (simp add: floatTo16BitPCM_def js_trunc_def pcm16ToFloat32_def new_Int16Array_def
      int16_view_buffer length_Int16Array_buffer)

text \<open>
  Claim C4, amended: for every buffer whose samples lie in \<open>[-1, 1]\<close>, converting it with
  \<^verbatim>\<open>floatTo16BitPCM\<close> and back with \<^verbatim>\<open>pcm16ToFloat32\<close> succeeds and yields a buffer of the
  same length whose every sample differs from the original by less than \<open>2/32768\<close>.
\<close>

theorem C4_amended:
  assumes "\<forall>x\<in>set xs. - 1 \<le> x \<and> x \<le> 1"
  shows "\<exists>ys. pcm16ToFloat32 (Int16Array_buffer (floatTo16BitPCM (map Num xs))) = Inr (map Num ys)
          \<and> length ys = length xs
          \<and> (\<forall>i<length xs. \<bar>ys ! i - xs ! i\<bar> < 2 / 32768)"
proof -
  let ?ys = "map (\<lambda>x. real_of_int (pcm_trunc x) / 32768) xs"
  have "pcm16ToFloat32 (Int16Array_buffer (floatTo16BitPCM (map Num xs))) = Inr (map Num ?ys)"
    by (simp add: roundtrip_eq comp_def)
  moreover have "\<forall>i<length xs. \<bar>?ys ! i - xs ! i\<bar> < 2 / 32768"
  proof (intro allI impI)
    fix i assume i: "i < length xs"
    then have "- 1 \<le> xs ! i" "xs ! i \<le> 1" using assms by simp_all
    then have "\<bar>real_of_int (pcm_trunc (xs ! i)) / 32768 - xs ! i\<bar> < 2 / 32768"
      by (rule pcm_trunc_err)
    then show "\<bar>?ys ! i - xs ! i\<bar> < 2 / 32768" using i by (simp only: nth_map)
  qed
  ultimately show ?thesis by (intro exI[of _ ?ys]) simp
qed

theorem C4_amended_witness:
  "- 1 \<le> (65535 / 65536 :: real) \<and> (65535 / 65536 :: real) \<le> 1
   \<and> - 1 \<le> (- 1 / 3 :: real) \<and> (- 1 / 3 :: real) \<le> 1
   \<and> (\<exists>ys. pcm16ToFloat32 (Int16Array_buffer (floatTo16BitPCM (map Num [65535 / 65536, - 1 / 3])))
            = Inr (map Num ys)
          \<and> length ys = 2
          \<and> \<bar>ys ! 0 - 65535 / 65536\<bar> < 2 / 32768 \<and> \<bar>ys ! 1 - (- 1 / 3)\<bar> < 2 / 32768)"
proof -
  have h: "\<forall>x\<in>set [65535 / 65536, - 1 / 3 :: real]. - 1 \<le> x \<and> x \<le> 1" by simp
  from C4_amended[OF h] obtain ys where
    ys: "pcm16ToFloat32 (Int16Array_buffer (floatTo16BitPCM (map Num [65535 / 65536, - 1 / 3])))
            = Inr (map Num ys)"
      "length ys = length [65535 / 65536, - 1 / 3 :: real]"
      "\<forall>i<length [65535 / 65536, - 1 / 3 :: real].
          \<bar>ys ! i - [65535 / 65536, - 1 / 3] ! i\<bar> < 2 / 32768"
    by blast
  have "\<bar>ys ! 0 - 65535 / 65536\<bar> < 2 / 32768"
    using ys(3)[rule_format, of 0] by simp
  moreover have "\<bar>ys ! 1 - (- 1 / 3)\<bar> < 2 / 32768"
    using ys(3)[rule_format, of 1] by simp
  moreover have "length ys = 2" using ys(2) by simp
  ultimately show ?thesis using ys(1) by (intro conjI exI[of _ ys]) simp_all
qed

section \<open>Binary64 rounding\<close>

text \<open>
  Rounding is odd, monotone and idempotent, and \<open>b64_round_eqI\<close> evaluates it on a number
  whose binade is known.
\<close>

lemma round_even_of_int: "round_even (real_of_int k) = k"
  by (simp add: round_even_def)

lemma round_even_cases: "round_even x = \<lfloor>x\<rfloor> \<or> round_even x = \<lfloor>x\<rfloor> + 1"
  by (simp add: round_even_def Let_def)

lemma round_even_mono:
  assumes "a \<le> b" shows "round_even a \<le> round_even b"
proof (cases "\<lfloor>a\<rfloor> < \<lfloor>b\<rfloor>")
  case True
  then show ?thesis using round_even_cases[of a] round_even_cases[of b] by linarith
next
  case False
  then have eq: "\<lfloor>a\<rfloor> = \<lfloor>b\<rfloor>" using floor_mono[OF assms] by linarith
  define f where "f = \<lfloor>b\<rfloor>"
  define ra where "ra = a - real_of_int f"
  define rb where "rb = b - real_of_int f"
  have r: "ra \<le> rb" using assms by (simp add: ra_def rb_def)
  have ea: "round_even a = (if ra < 1 / 2 then f else if 1 / 2 < ra then f + 1
                           else if even f then f else f + 1)"
  proof -
    have fa: "\<lfloor>a\<rfloor> = f" using eq by (simp add: f_def)
    show ?thesis by (simp only: round_even_def Let_def ra_def fa)
  qed
  have eb: "round_even b = (if rb < 1 / 2 then f else if 1 / 2 < rb then f + 1
                           else if even f then f else f + 1)"
    by (simp only: round_even_def Let_def rb_def f_def)
  show ?thesis using r by (auto simp: ea eb)
qed

lemma round_even_minus: "round_even (- x) = - round_even x"
proof (cases "x = real_of_int \<lfloor>x\<rfloor>")
  case True
  have "round_even (- real_of_int \<lfloor>x\<rfloor>) = - round_even (real_of_int \<lfloor>x\<rfloor>)"
    using round_even_of_int[of "- \<lfloor>x\<rfloor>"] by (simp add: round_even_of_int)
  then show ?thesis using True by simp
next
  case False
  then have f: "\<lfloor>- x\<rfloor> = - \<lfloor>x\<rfloor> - 1"
    by (simp add: floor_minus ceiling_altdef)
  define k where "k = \<lfloor>x\<rfloor>"
  define r where "r = x - real_of_int k"
  have r: "0 < r" "r < 1" using False by (simp_all add: r_def k_def) linarith+
  have e1: "round_even x = (if r < 1 / 2 then k else if 1 / 2 < r then k + 1
                            else if even k then k else k + 1)"
    by (simp only: round_even_def Let_def r_def k_def)
  have "- x - real_of_int (- k - 1) = 1 - r" by (simp add: r_def)
  then have e2: "round_even (- x) = (if 1 - r < 1 / 2 then - k - 1 else if 1 / 2 < 1 - r then - k
                            else if even (- k - 1) then - k - 1 else - k)"
    by (simp add: round_even_def Let_def f k_def[symmetric])
  show ?thesis using r by (auto simp: e1 e2)
qed

lemma exponent_from_spec:
  "e - int n \<le> exponent_from n e x \<and> exponent_from n e x \<le> e
   \<and> (e - int n < exponent_from n e x \<longrightarrow> 2 powi (exponent_from n e x) \<le> x)
   \<and> (exponent_from n e x < e \<longrightarrow> x < 2 powi (exponent_from n e x + 1))"
proof (induction n arbitrary: e)
  case 0
  show ?case by simp
next
  case (Suc n)
  show ?case
  proof (cases "2 powi e \<le> x")
    case True
    then show ?thesis by simp
  next
    case False
    from Suc.IH[of "e - 1"] False show ?thesis
      by (cases "exponent_from n (e - 1) x = e - 1") auto
  qed
qed

lemma b64_exponent_spec:
  "- 1022 \<le> b64_exponent x" "b64_exponent x \<le> 1023"
  "- 1022 < b64_exponent x \<Longrightarrow> 2 powi (b64_exponent x) \<le> \<bar>x\<bar>"
  "b64_exponent x < 1023 \<Longrightarrow> \<bar>x\<bar> < 2 powi (b64_exponent x + 1)"
  using exponent_from_spec[of 1023 2045 "\<bar>x\<bar>"] by (simp_all add: b64_exponent_def)

lemma two_powi_mono: "a \<le> b \<Longrightarrow> (2::real) powi a \<le> 2 powi b"
  by (simp add: power_int_increasing)

lemma b64_exponent_unique:
  assumes "- 1022 \<le> e" "e \<le> 1023"
    and "- 1022 < e \<Longrightarrow> 2 powi e \<le> \<bar>x\<bar>"
    and "e < 1023 \<Longrightarrow> \<bar>x\<bar> < 2 powi (e + 1)"
  shows "b64_exponent x = e"
proof (rule ccontr)
  assume ne: "b64_exponent x \<noteq> e"
  let ?E = "b64_exponent x"
  show False
  proof (cases "?E < e")
    case True
    then have "2 powi e \<le> \<bar>x\<bar>" using assms(3) b64_exponent_spec(1)[of x] by simp
    moreover have "\<bar>x\<bar> < 2 powi (?E + 1)" using b64_exponent_spec(4)[of x] True assms(2) by simp
    moreover have "(2::real) powi (?E + 1) \<le> 2 powi e" using True by (intro two_powi_mono) simp
    ultimately show False by simp
  next
    case False
    then have lt: "e < ?E" using ne by simp
    then have "2 powi ?E \<le> \<bar>x\<bar>" using b64_exponent_spec(3)[of x] assms(1) by simp
    moreover have "\<bar>x\<bar> < 2 powi (e + 1)" using assms(4) lt b64_exponent_spec(2)[of x] by simp
    moreover have "(2::real) powi (e + 1) \<le> 2 powi ?E" using lt by (intro two_powi_mono) simp
    ultimately show False by simp
  qed
qed

lemma b64_exponent_minus: "b64_exponent (- x) = b64_exponent x"
  by (simp add: b64_exponent_def)

lemma b64_exponent_mono:
  assumes "\<bar>x\<bar> \<le> \<bar>y\<bar>" shows "b64_exponent x \<le> b64_exponent y"
proof (rule ccontr)
  assume "\<not> b64_exponent x \<le> b64_exponent y"
  then have lt: "b64_exponent y < b64_exponent x" by simp
  then have "2 powi (b64_exponent x) \<le> \<bar>x\<bar>"
    using b64_exponent_spec(3)[of x] b64_exponent_spec(1)[of y] by simp
  moreover have "\<bar>y\<bar> < 2 powi (b64_exponent y + 1)"
    using b64_exponent_spec(4)[of y] lt b64_exponent_spec(2)[of x] by simp
  moreover have "(2::real) powi (b64_exponent y + 1) \<le> 2 powi (b64_exponent x)"
    using lt by (intro two_powi_mono) simp
  ultimately show False using assms by simp
qed

lemma b64_round_minus: "b64_round (- x) = - b64_round x"
  by (simp add: b64_round_def b64_exponent_minus round_even_minus Let_def)

lemma two_powi_pos: "0 < (2::real) powi k"
  by simp

lemma two_powi_split: "(2::real) powi e = 2 ^ 52 * 2 powi (e - 52)"
proof -
  have "(2::real) powi e = 2 powi (52 + (e - 52))" by simp
  also have "\<dots> = 2 powi 52 * 2 powi (e - 52)" by (subst power_int_add) simp_all
  finally show ?thesis by simp
qed

lemma b64_round_nonneg: "0 \<le> x \<Longrightarrow> 0 \<le> b64_round x"
proof -
  assume "0 \<le> x"
  then have "0 \<le> x / 2 powi (b64_exponent x - 52)" by simp
  then have "round_even 0 \<le> round_even (x / 2 powi (b64_exponent x - 52))"
    by (rule round_even_mono)
  then show ?thesis using round_even_of_int[of 0] by (simp add: b64_round_def Let_def)
qed

text \<open>The rounded value stays within the closed binade of the number.\<close>

lemma b64_round_lower:
  assumes "0 \<le> x" "- 1022 < b64_exponent x"
  shows "2 powi (b64_exponent x) \<le> b64_round x"
proof -
  let ?u = "(2::real) powi (b64_exponent x - 52)"
  have "2 powi (b64_exponent x) \<le> x" using b64_exponent_spec(3)[OF assms(2)] assms(1) by simp
  then have "2 ^ 52 * ?u \<le> x" using two_powi_split[of "b64_exponent x"] by simp
  then have "real_of_int (2 ^ 52) \<le> x / ?u" by (simp add: field_simps)
  then have "round_even (real_of_int (2 ^ 52)) \<le> round_even (x / ?u)" by (rule round_even_mono)
  then have "2 ^ 52 \<le> round_even (x / ?u)" unfolding round_even_of_int .
  then have "real_of_int (2 ^ 52) \<le> real_of_int (round_even (x / ?u))" by linarith
  then have "real_of_int (2 ^ 52) * ?u \<le> real_of_int (round_even (x / ?u)) * ?u"
    by (intro mult_right_mono) simp_all
  then show ?thesis using two_powi_split[of "b64_exponent x"] by (simp add: b64_round_def Let_def)
qed

lemma b64_round_upper:
  assumes "0 \<le> x" "b64_exponent x < 1023"
  shows "b64_round x \<le> 2 powi (b64_exponent x + 1)"
proof -
  let ?u = "(2::real) powi (b64_exponent x - 52)"
  have "x < 2 powi (b64_exponent x + 1)" using b64_exponent_spec(4)[OF assms(2)] assms(1) by simp
  then have "x \<le> 2 ^ 52 * 2 powi (b64_exponent x + 1 - 52)"
    using two_powi_split[of "b64_exponent x + 1"] by simp
  also have "2 powi (b64_exponent x + 1 - 52) = 2 * ?u"
  proof -
    have "(2::real) powi (1 + (b64_exponent x - 52)) = 2 powi 1 * 2 powi (b64_exponent x - 52)"
      by (subst power_int_add) simp_all
    moreover have "b64_exponent x + 1 - 52 = 1 + (b64_exponent x - 52)" by simp
    ultimately show ?thesis by simp
  qed
  finally have "x / ?u \<le> real_of_int (2 ^ 53)" by (simp add: field_simps)
  then have "round_even (x / ?u) \<le> round_even (real_of_int (2 ^ 53))" by (rule round_even_mono)
  then have "round_even (x / ?u) \<le> 2 ^ 53" unfolding round_even_of_int .
  then have "real_of_int (round_even (x / ?u)) \<le> real_of_int (2 ^ 53)" by linarith
  then have "real_of_int (round_even (x / ?u)) * ?u \<le> real_of_int (2 ^ 53) * ?u"
    by (intro mult_right_mono) simp_all
  also have "real_of_int (2 ^ 53) * ?u = 2 powi (b64_exponent x + 1)"
    using two_powi_split[of "b64_exponent x + 1"] \<open>2 powi (b64_exponent x + 1 - 52) = 2 * ?u\<close>
    by simp
  finally show ?thesis by (simp add: b64_round_def Let_def)
qed

lemma b64_round_mono_nonneg:
  assumes "0 \<le> x" "x \<le> y"
  shows "b64_round x \<le> b64_round y"
proof (cases "b64_exponent x = b64_exponent y")
  case True
  let ?u = "(2::real) powi (b64_exponent y - 52)"
  have "x / ?u \<le> y / ?u" using assms by (simp add: divide_right_mono)
  then have "round_even (x / ?u) \<le> round_even (y / ?u)" by (rule round_even_mono)
  then have "real_of_int (round_even (x / ?u)) * ?u \<le> real_of_int (round_even (y / ?u)) * ?u"
    by (intro mult_right_mono) simp_all
  then show ?thesis by (simp add: b64_round_def Let_def True)
next
  case False
  have "b64_exponent x \<le> b64_exponent y" using assms by (intro b64_exponent_mono) simp
  with False have lt: "b64_exponent x < b64_exponent y" by simp
  have "b64_round x \<le> 2 powi (b64_exponent x + 1)"
    using b64_round_upper[OF assms(1)] lt b64_exponent_spec(2)[of y] by simp
  also have "\<dots> \<le> 2 powi (b64_exponent y)" using lt by (intro two_powi_mono) simp
  also have "\<dots> \<le> b64_round y"
    using b64_round_lower[of y] assms lt b64_exponent_spec(1)[of x] by simp
  finally show ?thesis .
qed

lemma b64_round_mono: assumes "x \<le> y" shows "b64_round x \<le> b64_round y"
proof (cases "0 \<le> x")
  case True
  then show ?thesis using assms by (rule b64_round_mono_nonneg)
next
  case False
  show ?thesis
  proof (cases "0 \<le> y")
    case True
    have "0 \<le> b64_round (- x)" using False by (intro b64_round_nonneg) simp
    then have "b64_round x \<le> 0" by (simp add: b64_round_minus)
    also have "0 \<le> b64_round y" using True by (rule b64_round_nonneg)
    finally show ?thesis .
  next
    case False
    then have "b64_round (- y) \<le> b64_round (- x)" using assms by (intro b64_round_mono_nonneg) simp_all
    then show ?thesis by (simp add: b64_round_minus)
  qed
qed


lemma b64_round_eqI:
  assumes "- 1022 \<le> e" "e \<le> 1023"
    and "- 1022 < e \<Longrightarrow> 2 powi e \<le> \<bar>x\<bar>"
    and "e < 1023 \<Longrightarrow> \<bar>x\<bar> < 2 powi (e + 1)"
    and "round_even (x / 2 powi (e - 52)) = m"
  shows "b64_round x = real_of_int m * 2 powi (e - 52)"
  using b64_exponent_unique[OF assms(1-4)] assms(5) by (simp add: b64_round_def Let_def)

text \<open>A multiple of the spacing of its own binade, of magnitude within it, is kept.\<close>

lemma b64_round_grid:
  assumes "- 1022 \<le> e" "e \<le> 1023"
    and "- 1022 < e \<Longrightarrow> 2 ^ 52 \<le> \<bar>m\<bar>"
    and "e < 1023 \<Longrightarrow> \<bar>m\<bar> < 2 ^ 53"
  shows "b64_round (real_of_int m * 2 powi (e - 52)) = real_of_int m * 2 powi (e - 52)"
proof -
  let ?u = "(2::real) powi (e - 52)"
  let ?y = "real_of_int m * ?u"
  have u: "0 < ?u" by simp
  have ay: "\<bar>?y\<bar> = real_of_int \<bar>m\<bar> * ?u" by (simp add: abs_mult)
  have lo: "2 powi e \<le> \<bar>?y\<bar>" if "- 1022 < e"
  proof -
    have "real_of_int (2 ^ 52) \<le> real_of_int \<bar>m\<bar>" using assms(3)[OF that] by linarith
    then have "real_of_int (2 ^ 52) * ?u \<le> real_of_int \<bar>m\<bar> * ?u"
      by (intro mult_right_mono) simp_all
    then show ?thesis using two_powi_split[of e] by (simp add: ay)
  qed
  have hi: "\<bar>?y\<bar> < 2 powi (e + 1)" if "e < 1023"
  proof -
    have "real_of_int \<bar>m\<bar> < real_of_int (2 ^ 53)" using assms(4)[OF that] by linarith
    then have "real_of_int \<bar>m\<bar> * ?u < real_of_int (2 ^ 53) * ?u"
      by (intro mult_strict_right_mono) simp_all
    moreover have "(2::real) powi (e + 1) = 2 ^ 53 * ?u"
    proof -
      have "(2::real) powi (1 + e) = 2 powi 1 * 2 powi e" by (subst power_int_add) simp_all
      then show ?thesis using two_powi_split[of e] by (simp add: add.commute)
    qed
    ultimately show ?thesis by (simp add: ay)
  qed
  have "round_even (?y / ?u) = m" by (simp add: round_even_of_int)
  from b64_round_eqI[OF assms(1,2) lo hi this] show ?thesis by simp
qed

lemma b64_round_idem_nonneg:
  assumes "0 \<le> x" shows "b64_round (b64_round x) = b64_round x"
proof -
  let ?e = "b64_exponent x"
  let ?u = "(2::real) powi (?e - 52)"
  let ?m = "round_even (x / ?u)"
  have y: "b64_round x = real_of_int ?m * ?u" by (simp add: b64_round_def Let_def)
  have m0: "0 \<le> ?m"
    using round_even_mono[of 0 "x / ?u"] assms round_even_of_int[of 0] by simp
  have e: "- 1022 \<le> ?e" "?e \<le> 1023" by (rule b64_exponent_spec)+
  have lo: "2 ^ 52 \<le> ?m" if "- 1022 < ?e"
  proof -
    have "2 powi ?e \<le> x" using b64_exponent_spec(3)[OF that] assms by simp
    then have "real_of_int (2 ^ 52) \<le> x / ?u" using two_powi_split[of ?e] by (simp add: field_simps)
    from round_even_mono[OF this] show ?thesis by (simp only: round_even_of_int)
  qed
  have hi: "?m \<le> 2 ^ 53" if "?e < 1023"
  proof -
    have "x < 2 powi (?e + 1)" using b64_exponent_spec(4)[OF that] assms by simp
    moreover have "(2::real) powi (?e + 1) = 2 ^ 53 * ?u"
    proof -
      have "(2::real) powi (1 + ?e) = 2 powi 1 * 2 powi ?e" by (subst power_int_add) simp_all
      then show ?thesis using two_powi_split[of ?e] by (simp add: add.commute)
    qed
    ultimately have "x / ?u \<le> real_of_int (2 ^ 53)" by (simp add: field_simps)
    from round_even_mono[OF this] show ?thesis by (simp only: round_even_of_int)
  qed
  show ?thesis
  proof (cases "?e < 1023 \<and> ?m = 2 ^ 53")
    case False
    have "b64_round (real_of_int ?m * ?u) = real_of_int ?m * ?u"
    proof (rule b64_round_grid[OF e])
      show "2 ^ 52 \<le> \<bar>?m\<bar>" if "- 1022 < ?e" using lo[OF that] by simp
      show "\<bar>?m\<bar> < 2 ^ 53" if "?e < 1023" using hi[OF that] False that m0 by simp
    qed
    then show ?thesis by (simp only: y)
  next
    case True
    then have e1: "- 1022 \<le> ?e + 1" "?e + 1 \<le> 1023" using e by simp_all
    have u2: "(2::real) powi (?e + 1 - 52) = 2 * ?u"
    proof -
      have "(2::real) powi (1 + (?e - 52)) = 2 powi 1 * 2 powi (?e - 52)"
        by (subst power_int_add) simp_all
      moreover have "?e + 1 - 52 = 1 + (?e - 52)" by simp
      ultimately show ?thesis by simp
    qed
    have "b64_round (real_of_int (2 ^ 52) * 2 powi (?e + 1 - 52)) = real_of_int (2 ^ 52) * 2 powi (?e + 1 - 52)"
      by (rule b64_round_grid[OF e1]) simp_all
    moreover have "real_of_int (2 ^ 52) * 2 powi (?e + 1 - 52) = real_of_int ?m * ?u"
      unfolding u2 using True by simp
    ultimately show ?thesis by (simp only: y)
  qed
qed

lemma b64_round_idem: "b64_round (b64_round x) = b64_round x"
proof (cases "0 \<le> x")
  case True
  then show ?thesis by (rule b64_round_idem_nonneg)
next
  case False
  then have "b64_round (b64_round (- x)) = b64_round (- x)" by (intro b64_round_idem_nonneg) simp
  then show ?thesis by (simp add: b64_round_minus)
qed

lemma b64_round_0: "b64_round 0 = 0"
  by (simp add: b64_round_def round_even_def)

text \<open>A binary64 number below a sum stays below the rounded sum.\<close>

lemma b64_round_ge: "b64_round z = z \<Longrightarrow> z \<le> w \<Longrightarrow> z \<le> b64_round w"
  using b64_round_mono[of z w] by simp

lemma b64_round_1_24000: "b64_round (1 / 24000) = 6148914691236517 / 2 ^ 67"
proof -
  have "b64_round (1 / 24000) = real_of_int 6148914691236517 * 2 powi (- 15 - 52)"
    by (rule b64_round_eqI) (simp_all add: round_even_def)
  then show ?thesis by simp
qed

section \<open>Playback scheduling\<close>

lemma pcm16ToFloat32_length:
  "pcm16ToFloat32 buffer = Inr fs \<Longrightarrow> length buffer = 2 * length fs"
proof -
  have v: "even (length bs) \<Longrightarrow> length bs = 2 * length (int16_view bs)" for bs
    by (induction bs rule: int16_view.induct) simp_all
  assume "pcm16ToFloat32 buffer = Inr fs"
  then show ?thesis
    using v[of buffer] by (auto simp: pcm16ToFloat32_def new_Int16Array_def split: if_splits)
qed

lemma playAudio_no_context:
  "outputAudioContext c = None \<Longrightarrow> playAudio atob t b c = Inr c"
  by (simp add: playAudio_def)

text \<open>
  One successful call on an open client: the chunk of \<open>n\<close> samples starts at the maximum
  of the clock and the cursor, its duration is the binary64 quotient of \<open>n\<close> and 24000,
  and the cursor becomes the binary64 sum of the start and the duration.
\<close>

lemma playAudio_step:
  assumes "playAudio atob t b c = Inr c'" and "outputAudioContext c = Some ctx"
  shows "\<exists>n bin. atob b = Inr bin \<and> length bin = 2 * n \<and> 0 < n
           \<and> scheduled c' = scheduled c @ [(max t (nextStartTime c), b64_round (real n / 24000))]
           \<and> nextStartTime c'
               = b64_round (max t (nextStartTime c) + b64_round (real n / 24000))"
proof -
  from assms obtain bin where bin: "atob b = Inr bin"
    by (auto simp: playAudio_def base64ToArrayBuffer_def split: sum.splits)
  from assms bin obtain fs where fs: "pcm16ToFloat32 (map of_char bin) = Inr fs"
    by (auto simp: playAudio_def base64ToArrayBuffer_def split: sum.splits)
  from assms bin fs obtain buffer where buf: "createBuffer (length fs) 24000 = Inr buffer"
    by (auto simp: playAudio_def base64ToArrayBuffer_def split: sum.splits)
  then have n: "0 < length fs"
    and d: "duration buffer = b64_round (real (length fs) / 24000)"
    by (auto simp: createBuffer_def duration_def split: if_splits)
  have len: "length bin = 2 * length fs"
    using pcm16ToFloat32_length[OF fs] by simp
  have m: "(if nextStartTime c < t then t else nextStartTime c) = max t (nextStartTime c)"
    by (simp add: max_def)
  have c': "c' = c\<lparr> outputAudioContext :=
                      Some (ctx\<lparr> ctx_started := ctx_started ctx
                               @ [(max t (nextStartTime c),
                                   b64_round (real (length fs) / 24000))] \<rparr>),
                    nextStartTime := b64_round (max t (nextStartTime c)
                                       + b64_round (real (length fs) / 24000)) \<rparr>"
    using assms bin fs buf d m
    by (simp add: playAudio_def base64ToArrayBuffer_def Let_def)
  have "scheduled c'
          = scheduled c @ [(max t (nextStartTime c), b64_round (real (length fs) / 24000))]"
    using assms(2) by (simp add: c' scheduled_def)
  moreover have "nextStartTime c'
          = b64_round (max t (nextStartTime c) + b64_round (real (length fs) / 24000))"
    by (simp add: c')
  ultimately show ?thesis using bin len n by blast
qed

lemma play_step_cases:
  "(scheduled (play_step atob t b c) = scheduled c
      \<and> nextStartTime (play_step atob t b c) = nextStartTime c)
   \<or> (\<exists>d\<ge>0. scheduled (play_step atob t b c) = scheduled c @ [(max t (nextStartTime c), d)]
         \<and> nextStartTime (play_step atob t b c) = b64_round (max t (nextStartTime c) + d))"
proof (cases "playAudio atob t b c")
  case (Inl e)
  then show ?thesis by (simp add: play_step_def)
next
  case (Inr c')
  show ?thesis
  proof (cases "outputAudioContext c")
    case None
    then show ?thesis by (simp add: play_step_def playAudio_no_context)
  next
    case (Some ctx)
    from playAudio_step[OF Inr Some] obtain n where n:
      "scheduled c' = scheduled c @ [(max t (nextStartTime c), b64_round (real n / 24000))]"
      "nextStartTime c' = b64_round (max t (nextStartTime c) + b64_round (real n / 24000))"
      by blast
    have "0 \<le> b64_round (real n / 24000)" by (rule b64_round_nonneg) simp
    with n have "0 \<le> b64_round (real n / 24000)
       \<and> scheduled c' = scheduled c @ [(max t (nextStartTime c), b64_round (real n / 24000))]
       \<and> nextStartTime c' = b64_round (max t (nextStartTime c) + b64_round (real n / 24000))"
      by simp
    then have "\<exists>d\<ge>0. scheduled c' = scheduled c @ [(max t (nextStartTime c), d)]
       \<and> nextStartTime c' = b64_round (max t (nextStartTime c) + d)"
      by (rule exI[of _ "b64_round (real n / 24000)"])
    moreover have "play_step atob t b c = c'" using Inr by (simp add: play_step_def)
    ultimately show ?thesis by simp
  qed
qed

text \<open>
  The cursor of a new client is a binary64 number, a step keeps it one and does not move
  it back.
\<close>

lemma new_LiveClient_representable: "representable (nextStartTime new_LiveClient)"
  by (simp add: representable_def new_LiveClient_def b64_round_0)

lemma play_step_mono:
  assumes "representable (nextStartTime c)"
  shows "representable (nextStartTime (play_step atob t b c))
         \<and> nextStartTime c \<le> nextStartTime (play_step atob t b c)"
  using play_step_cases[of atob t b c]
proof
  assume "scheduled (play_step atob t b c) = scheduled c
      \<and> nextStartTime (play_step atob t b c) = nextStartTime c"
  then show ?thesis using assms by simp
next
  assume "\<exists>d\<ge>0. scheduled (play_step atob t b c) = scheduled c @ [(max t (nextStartTime c), d)]
         \<and> nextStartTime (play_step atob t b c) = b64_round (max t (nextStartTime c) + d)"
  then obtain d where d: "0 \<le> d"
    "nextStartTime (play_step atob t b c) = b64_round (max t (nextStartTime c) + d)" by blast
  have "nextStartTime c \<le> max t (nextStartTime c) + d" using d(1) by simp
  then have "nextStartTime c \<le> b64_round (max t (nextStartTime c) + d)"
    using assms by (intro b64_round_ge) (simp_all add: representable_def)
  then show ?thesis by (simp add: d(2) representable_def b64_round_idem)
qed

lemma playAll_mono:
  "representable (nextStartTime c) \<Longrightarrow>
     representable (nextStartTime (playAll atob xs c))
     \<and> nextStartTime c \<le> nextStartTime (playAll atob xs c)"
proof (induction xs arbitrary: c)
  case Nil
  then show ?case by simp
next
  case (Cons x xs)
  obtain t b where x: "x = (t, b)" by (cases x)
  from play_step_mono[OF Cons.prems, of atob t b]
  have 1: "representable (nextStartTime (play_step atob t b c))"
    and 2: "nextStartTime c \<le> nextStartTime (play_step atob t b c)" by simp_all
  from Cons.IH[OF 1] 2 show ?case by (simp add: x)
qed

text \<open>
  A whole run: the new chunks never overlap and the cursor is the end of the last one;
  when the clock is behind the cursor at every arrival they follow each other without a
  gap.
\<close>

lemma playAll_schedule:
  "\<exists>new. scheduled (playAll atob xs c) = scheduled c @ new
         \<and> no_overlap (nextStartTime c) new
         \<and> nextStartTime (playAll atob xs c) = end_of (nextStartTime c) new
         \<and> (clock_behind atob xs c \<longrightarrow> gapless (nextStartTime c) new)"
proof (induction xs arbitrary: c)
  case Nil
  show ?case by (intro exI[of _ "[]"]) simp
next
  case (Cons x xs)
  obtain t b where x: "x = (t, b)" by (cases x)
  let ?c1 = "play_step atob t b c"
  have pa: "playAll atob (x # xs) c = playAll atob xs ?c1"
    by (simp add: x)
  have cb: "clock_behind atob (x # xs) c = (t \<le> nextStartTime c \<and> clock_behind atob xs ?c1)"
    by (simp add: x)
  from Cons.IH[of ?c1] obtain new where new:
    "scheduled (playAll atob xs ?c1) = scheduled ?c1 @ new"
    "no_overlap (nextStartTime ?c1) new"
    "nextStartTime (playAll atob xs ?c1) = end_of (nextStartTime ?c1) new"
    "clock_behind atob xs ?c1 \<longrightarrow> gapless (nextStartTime ?c1) new" by blast
  from play_step_cases[of atob t b c] show ?case
  proof
    assume same: "scheduled ?c1 = scheduled c \<and> nextStartTime ?c1 = nextStartTime c"
    show ?thesis unfolding pa cb
      using new same by (intro exI[of _ new]) simp
  next
    assume "\<exists>d\<ge>0. scheduled ?c1 = scheduled c @ [(max t (nextStartTime c), d)]
         \<and> nextStartTime ?c1 = b64_round (max t (nextStartTime c) + d)"
    then obtain d where d: "scheduled ?c1 = scheduled c @ [(max t (nextStartTime c), d)]"
      "nextStartTime ?c1 = b64_round (max t (nextStartTime c) + d)" by blast
    show ?thesis unfolding pa cb
      using new d by (intro exI[of _ "(max t (nextStartTime c), d) # new"]) (auto simp: max_def)
  qed
qed

lemma example_client_eq:
  "example_client = new_LiveClient\<lparr> sessionPromise := Some Session,
      inputAudioContext := Some new_AudioContext, outputAudioContext := Some new_AudioContext,
      stream := Some [True], inputSource := Some \<lparr> src_connected = True \<rparr>,
      processor := Some \<lparr> proc_connected = True, proc_onaudioprocess = True \<rparr> \<rparr>"
  by (simp add: example_client_def connect_def startAudioInput_def new_LiveClient_def)


text \<open>
  The times of the example run: one sample lasts \<open>6148914691236517 / 2 ^ 67\<close> seconds in
  binary64, two samples twice that, and the cursor after chunks of 1, 2, 1 and 1 samples
  scheduled from time 0 takes the values below. The second sum is rounded up and the
  third down: the exact sum of the start and the duration of a chunk is not in general a
  binary64 number, and the value the code computes and starts the next chunk at is the
  rounded one.
\<close>

lemma duration_1_sample: "b64_round (real (Suc 0) / 24000) = 6148914691236517 / 2 ^ 67"
  using b64_round_1_24000 by simp

lemma duration_2_samples: "b64_round (real (Suc (Suc 0)) / 24000) = 6148914691236517 / 2 ^ 66"
proof -
  have "b64_round (2 / 24000) = real_of_int 6148914691236517 * 2 powi (- 14 - 52)"
    by (rule b64_round_eqI) (simp_all add: round_even_def)
  then show ?thesis by simp
qed

lemma cursor_after_1: "b64_round (0 + 6148914691236517 / 2 ^ 67) = 6148914691236517 / 2 ^ 67"
  using b64_round_idem[of "1 / 24000"] by (simp add: b64_round_1_24000)

lemma cursor_after_2:
  "b64_round (6148914691236517 / 2 ^ 67 + 6148914691236517 / 2 ^ 66)
     = 4611686018427388 / 2 ^ 65"
proof -
  have "b64_round (6148914691236517 / 2 ^ 67 + 6148914691236517 / 2 ^ 66)
          = real_of_int 4611686018427388 * 2 powi (- 13 - 52)"
    by (rule b64_round_eqI) (simp_all add: round_even_def)
  then show ?thesis by simp
qed

lemma cursor_after_3:
  "b64_round (4611686018427388 / 2 ^ 65 + 6148914691236517 / 2 ^ 67)
     = 6148914691236517 / 2 ^ 65"
proof -
  have "b64_round (4611686018427388 / 2 ^ 65 + 6148914691236517 / 2 ^ 67)
          = real_of_int 6148914691236517 * 2 powi (- 13 - 52)"
    by (rule b64_round_eqI) (simp_all add: round_even_def)
  then show ?thesis by simp
qed

lemma cursor_after_4:
  "b64_round (6148914691236517 / 2 ^ 65 + 6148914691236517 / 2 ^ 67)
     = 7686143364045646 / 2 ^ 65"
proof -
  have "b64_round (6148914691236517 / 2 ^ 65 + 6148914691236517 / 2 ^ 67)
          = real_of_int 7686143364045646 * 2 powi (- 13 - 52)"
    by (rule b64_round_eqI) (simp_all add: round_even_def)
  then show ?thesis by simp
qed

lemma rounded_sum_is_not_exact:
  "b64_round (6148914691236517 / 2 ^ 67 + 6148914691236517 / 2 ^ 66)
     - (6148914691236517 / 2 ^ 67 + 6148914691236517 / 2 ^ 66) = 1 / 2 ^ 67"
  "b64_round (4611686018427388 / 2 ^ 65 + 6148914691236517 / 2 ^ 67)
     - (4611686018427388 / 2 ^ 65 + 6148914691236517 / 2 ^ 67) = - 1 / 2 ^ 67"
  unfolding cursor_after_2 cursor_after_3 by simp_all

text \<open>A chunk of one sample and a chunk of two, arriving at time 0 on an open client.\<close>

lemma play_step_one_sample:
  assumes "outputAudioContext c = Some ctx" and "0 \<le> nextStartTime c"
  shows "\<exists>ctx'. outputAudioContext (play_step Inr 0 ''ab'' c) = Some ctx'"
    and "scheduled (play_step Inr 0 ''ab'' c)
           = scheduled c @ [(nextStartTime c, 6148914691236517 / 2 ^ 67)]"
    and "nextStartTime (play_step Inr 0 ''ab'' c)
           = b64_round (nextStartTime c + 6148914691236517 / 2 ^ 67)"
proof -
  have d: "duration \<lparr> buf_length = Suc 0, buf_sampleRate = 24000 \<rparr> = 6148914691236517 / 2 ^ 67"
    unfolding duration_def using duration_1_sample by simp
  have "play_step Inr 0 ''ab'' c
      = c\<lparr> outputAudioContext := Some (ctx\<lparr> ctx_started := ctx_started ctx
               @ [(nextStartTime c, duration \<lparr> buf_length = Suc 0, buf_sampleRate = 24000 \<rparr>)] \<rparr>),
            nextStartTime := b64_round (nextStartTime c
               + duration \<lparr> buf_length = Suc 0, buf_sampleRate = 24000 \<rparr>) \<rparr>"
    using assms
    by (simp add: play_step_def playAudio_def base64ToArrayBuffer_def pcm16ToFloat32_def
        new_Int16Array_def createBuffer_def Let_def)
  then have c': "play_step Inr 0 ''ab'' c
      = c\<lparr> outputAudioContext := Some (ctx\<lparr> ctx_started := ctx_started ctx
               @ [(nextStartTime c, 6148914691236517 / 2 ^ 67)] \<rparr>),
            nextStartTime := b64_round (nextStartTime c + 6148914691236517 / 2 ^ 67) \<rparr>"
    unfolding d .
  show "\<exists>ctx'. outputAudioContext (play_step Inr 0 ''ab'' c) = Some ctx'"
    unfolding c' by simp
  show "scheduled (play_step Inr 0 ''ab'' c)
           = scheduled c @ [(nextStartTime c, 6148914691236517 / 2 ^ 67)]"
    unfolding c' using assms(1) by (simp add: scheduled_def)
  show "nextStartTime (play_step Inr 0 ''ab'' c)
           = b64_round (nextStartTime c + 6148914691236517 / 2 ^ 67)"
    unfolding c' by simp
qed

lemma play_step_two_samples:
  assumes "outputAudioContext c = Some ctx" and "0 \<le> nextStartTime c"
  shows "\<exists>ctx'. outputAudioContext (play_step Inr 0 ''abcd'' c) = Some ctx'"
    and "scheduled (play_step Inr 0 ''abcd'' c)
           = scheduled c @ [(nextStartTime c, 6148914691236517 / 2 ^ 66)]"
    and "nextStartTime (play_step Inr 0 ''abcd'' c)
           = b64_round (nextStartTime c + 6148914691236517 / 2 ^ 66)"
proof -
  have d: "duration \<lparr> buf_length = Suc (Suc 0), buf_sampleRate = 24000 \<rparr>
             = 6148914691236517 / 2 ^ 66"
    unfolding duration_def using duration_2_samples by simp
  have "play_step Inr 0 ''abcd'' c
      = c\<lparr> outputAudioContext := Some (ctx\<lparr> ctx_started := ctx_started ctx
               @ [(nextStartTime c,
                   duration \<lparr> buf_length = Suc (Suc 0), buf_sampleRate = 24000 \<rparr>)] \<rparr>),
            nextStartTime := b64_round (nextStartTime c
               + duration \<lparr> buf_length = Suc (Suc 0), buf_sampleRate = 24000 \<rparr>) \<rparr>"
    using assms
    by (simp add: play_step_def playAudio_def base64ToArrayBuffer_def pcm16ToFloat32_def
        new_Int16Array_def createBuffer_def Let_def)
  then have c': "play_step Inr 0 ''abcd'' c
      = c\<lparr> outputAudioContext := Some (ctx\<lparr> ctx_started := ctx_started ctx
               @ [(nextStartTime c, 6148914691236517 / 2 ^ 66)] \<rparr>),
            nextStartTime := b64_round (nextStartTime c + 6148914691236517 / 2 ^ 66) \<rparr>"
    unfolding d .
  show "\<exists>ctx'. outputAudioContext (play_step Inr 0 ''abcd'' c) = Some ctx'"
    unfolding c' by simp
  show "scheduled (play_step Inr 0 ''abcd'' c)
           = scheduled c @ [(nextStartTime c, 6148914691236517 / 2 ^ 66)]"
    unfolding c' using assms(1) by (simp add: scheduled_def)
  show "nextStartTime (play_step Inr 0 ''abcd'' c)
           = b64_round (nextStartTime c + 6148914691236517 / 2 ^ 66)"
    unfolding c' by simp
qed

text \<open>
  The example run: chunks of 1, 2, 1 and 1 samples arriving at time 0 on the example
  client.
\<close>

lemma example_run:
  "scheduled (playAll Inr [(0, ''ab''), (0, ''abcd''), (0, ''ab''), (0, ''ab'')] example_client)
       = [(0, 6148914691236517 / 2 ^ 67),
          (6148914691236517 / 2 ^ 67, 6148914691236517 / 2 ^ 66),
          (4611686018427388 / 2 ^ 65, 6148914691236517 / 2 ^ 67),
          (6148914691236517 / 2 ^ 65, 6148914691236517 / 2 ^ 67)]"
  "clock_behind Inr [(0, ''ab''), (0, ''abcd''), (0, ''ab''), (0, ''ab'')] example_client"
proof -
  define c1 where "c1 = play_step Inr 0 ''ab'' example_client"
  define c2 where "c2 = play_step Inr 0 ''abcd'' c1"
  define c3 where "c3 = play_step Inr 0 ''ab'' c2"
  define c4 where "c4 = play_step Inr 0 ''ab'' c3"
  have o0: "outputAudioContext example_client = Some new_AudioContext"
    and n0: "nextStartTime example_client = 0"
    and s0: "scheduled example_client = []"
    by (simp_all add: example_client_eq new_LiveClient_def scheduled_def new_AudioContext_def)
  have o1: "\<exists>ctx. outputAudioContext c1 = Some ctx"
    and s1: "scheduled c1 = [(0, 6148914691236517 / 2 ^ 67)]"
    and n1: "nextStartTime c1 = 6148914691236517 / 2 ^ 67"
    unfolding c1_def
    using play_step_one_sample[OF o0] cursor_after_1 by (simp_all only: n0 s0 append_Nil order_refl)
  from o1 obtain x1 where x1: "outputAudioContext c1 = Some x1" by blast
  have p1: "0 \<le> nextStartTime c1" by (simp add: n1)
  have o2: "\<exists>ctx. outputAudioContext c2 = Some ctx"
    and s2: "scheduled c2 = [(0, 6148914691236517 / 2 ^ 67),
                             (6148914691236517 / 2 ^ 67, 6148914691236517 / 2 ^ 66)]"
    and n2: "nextStartTime c2 = 4611686018427388 / 2 ^ 65"
    unfolding c2_def
    using play_step_two_samples[OF x1 p1] cursor_after_2
    by (simp_all only: n1 s1 append_Cons append_Nil)
  from o2 obtain x2 where x2: "outputAudioContext c2 = Some x2" by blast
  have p2: "0 \<le> nextStartTime c2" by (simp add: n2)
  have o3: "\<exists>ctx. outputAudioContext c3 = Some ctx"
    and s3: "scheduled c3 = [(0, 6148914691236517 / 2 ^ 67),
                             (6148914691236517 / 2 ^ 67, 6148914691236517 / 2 ^ 66),
                             (4611686018427388 / 2 ^ 65, 6148914691236517 / 2 ^ 67)]"
    and n3: "nextStartTime c3 = 6148914691236517 / 2 ^ 65"
    unfolding c3_def
    using play_step_one_sample[OF x2 p2] cursor_after_3
    by (simp_all only: n2 s2 append_Cons append_Nil)
  from o3 obtain x3 where x3: "outputAudioContext c3 = Some x3" by blast
  have p3: "0 \<le> nextStartTime c3" by (simp add: n3)
  have s4: "scheduled c4 = [(0, 6148914691236517 / 2 ^ 67),
                             (6148914691236517 / 2 ^ 67, 6148914691236517 / 2 ^ 66),
                             (4611686018427388 / 2 ^ 65, 6148914691236517 / 2 ^ 67),
                             (6148914691236517 / 2 ^ 65, 6148914691236517 / 2 ^ 67)]"
    unfolding c4_def
    using play_step_one_sample(2)[OF x3 p3]
    by (simp only: n3 s3 append_Cons append_Nil)
  have run: "playAll Inr [(0, ''ab''), (0, ''abcd''), (0, ''ab''), (0, ''ab'')] example_client = c4"
    by (simp only: playAll.simps c1_def c2_def c3_def c4_def)
  show "scheduled (playAll Inr [(0, ''ab''), (0, ''abcd''), (0, ''ab''), (0, ''ab'')]
          example_client)
       = [(0, 6148914691236517 / 2 ^ 67),
          (6148914691236517 / 2 ^ 67, 6148914691236517 / 2 ^ 66),
          (4611686018427388 / 2 ^ 65, 6148914691236517 / 2 ^ 67),
          (6148914691236517 / 2 ^ 65, 6148914691236517 / 2 ^ 67)]"
    unfolding run by (rule s4)
  have "clock_behind Inr [(0, ''ab''), (0, ''abcd''), (0, ''ab''), (0, ''ab'')] example_client
          = (0 \<le> nextStartTime example_client \<and> 0 \<le> nextStartTime c1
             \<and> 0 \<le> nextStartTime c2 \<and> 0 \<le> nextStartTime c3)"
    by (simp only: clock_behind.simps c1_def c2_def c3_def simp_thms)
  then show "clock_behind Inr [(0, ''ab''), (0, ''abcd''), (0, ''ab''), (0, ''ab'')]
               example_client"
    using p1 p2 p3 by (simp add: n0)
qed

text \<open>
  Claim C2: a chunk that \<^verbatim>\<open>playAudio\<close> schedules starts at the maximum of the device clock
  and the cursor \<^verbatim>\<open>nextStartTime\<close>, and the cursor then advances by the duration of the
  chunk: it becomes the binary64 sum of that start and the duration, the duration being
  the binary64 quotient of the number of samples and 24000. Over any run of chunks no
  chunk starts before the end of the chunk before it, the cursor is the end of the last
  chunk scheduled, and when the clock is behind the cursor at every arrival each chunk
  starts exactly where the chunk before it ends; the end of a chunk is the binary64 sum
  of its start and its duration, as the code computes it. The cursor of a session is a
  binary64 number, and from such a cursor no run moves it back. (The cursor starts at 0
  and every step keeps it a binary64 number: \<open>new_LiveClient_representable\<close>,
  \<open>play_step_mono\<close>.)
\<close>

theorem C2_playback_schedule:
  "(\<forall>ctx c'. outputAudioContext c = Some ctx \<and> playAudio atob t b c = Inr c' \<longrightarrow>
      (\<exists>n bin. atob b = Inr bin \<and> length bin = 2 * n \<and> 0 < n
         \<and> scheduled c' = scheduled c @ [(max t (nextStartTime c), b64_round (real n / 24000))]
         \<and> nextStartTime c'
             = b64_round (max t (nextStartTime c) + b64_round (real n / 24000))))
   \<and> (\<exists>new. scheduled (playAll atob xs c) = scheduled c @ new
         \<and> no_overlap (nextStartTime c) new
         \<and> nextStartTime (playAll atob xs c) = end_of (nextStartTime c) new
         \<and> (clock_behind atob xs c \<longrightarrow> gapless (nextStartTime c) new))
   \<and> (representable (nextStartTime c) \<longrightarrow>
         representable (nextStartTime (playAll atob xs c))
         \<and> nextStartTime c \<le> nextStartTime (playAll atob xs c))"
proof (intro conjI allI impI)
  fix ctx c' assume "outputAudioContext c = Some ctx \<and> playAudio atob t b c = Inr c'"
  then show "\<exists>n bin. atob b = Inr bin \<and> length bin = 2 * n \<and> 0 < n
         \<and> scheduled c' = scheduled c @ [(max t (nextStartTime c), b64_round (real n / 24000))]
         \<and> nextStartTime c'
             = b64_round (max t (nextStartTime c) + b64_round (real n / 24000))"
    using playAudio_step[of atob t b c c' ctx] by simp
next
  show "\<exists>new. scheduled (playAll atob xs c) = scheduled c @ new
         \<and> no_overlap (nextStartTime c) new
         \<and> nextStartTime (playAll atob xs c) = end_of (nextStartTime c) new
         \<and> (clock_behind atob xs c \<longrightarrow> gapless (nextStartTime c) new)"
    by (rule playAll_schedule)
next
  assume "representable (nextStartTime c)"
  then show "representable (nextStartTime (playAll atob xs c))"
    using playAll_mono[of c atob xs] by simp
next
  assume "representable (nextStartTime c)"
  then show "nextStartTime c \<le> nextStartTime (playAll atob xs c)"
    using playAll_mono[of c atob xs] by simp
qed

theorem C2_playback_schedule_witness:
  "outputAudioContext example_client = Some new_AudioContext
   \<and> (\<exists>c'. playAudio Inr 0 ''ab'' example_client = Inr c')
   \<and> representable (nextStartTime example_client)
   \<and> clock_behind Inr [(0, ''ab''), (0, ''abcd''), (0, ''ab''), (0, ''ab'')] example_client
   \<and> scheduled (playAll Inr [(0, ''ab''), (0, ''abcd''), (0, ''ab''), (0, ''ab'')] example_client)
       = [(0, 6148914691236517 / 2 ^ 67),
          (6148914691236517 / 2 ^ 67, 6148914691236517 / 2 ^ 66),
          (4611686018427388 / 2 ^ 65, 6148914691236517 / 2 ^ 67),
          (6148914691236517 / 2 ^ 65, 6148914691236517 / 2 ^ 67)]
   \<and> gapless 0 [(0, 6148914691236517 / 2 ^ 67),
          (6148914691236517 / 2 ^ 67, 6148914691236517 / 2 ^ 66),
          (4611686018427388 / 2 ^ 65, 6148914691236517 / 2 ^ 67),
          (6148914691236517 / 2 ^ 65, 6148914691236517 / 2 ^ 67)]
   \<and> 0 \<le> nextStartTime (playAll Inr [(0, ''ab''), (0, ''abcd''), (0, ''ab''), (0, ''ab'')]
              example_client)"
proof -
  let ?xs = "[(0, ''ab''), (0, ''abcd''), (0, ''ab''), (0, ''ab'')]"
  have o: "outputAudioContext example_client = Some new_AudioContext"
    and n: "nextStartTime example_client = 0" and s: "scheduled example_client = []"
    by (simp_all add: example_client_eq new_LiveClient_def scheduled_def new_AudioContext_def)
  have r: "representable (nextStartTime example_client)"
    by (simp add: n representable_def b64_round_0)
  have p: "\<exists>c'. playAudio Inr 0 ''ab'' example_client = Inr c'"
    using o by (simp add: playAudio_def base64ToArrayBuffer_def pcm16ToFloat32_def
        new_Int16Array_def createBuffer_def Let_def)
  from C2_playback_schedule[of example_client Inr 0 "''ab''" ?xs]
  obtain new where new: "scheduled (playAll Inr ?xs example_client) = scheduled example_client @ new"
    "clock_behind Inr ?xs example_client \<longrightarrow> gapless (nextStartTime example_client) new"
    and mono: "representable (nextStartTime example_client) \<longrightarrow>
                 nextStartTime example_client \<le> nextStartTime (playAll Inr ?xs example_client)"
    by blast
  from new(1) have eq: "new = [(0, 6148914691236517 / 2 ^ 67),
          (6148914691236517 / 2 ^ 67, 6148914691236517 / 2 ^ 66),
          (4611686018427388 / 2 ^ 65, 6148914691236517 / 2 ^ 67),
          (6148914691236517 / 2 ^ 65, 6148914691236517 / 2 ^ 67)]"
    unfolding example_run(1) s by simp
  have g: "gapless 0 new" using new(2) example_run(2) by (simp add: n)
  have m: "0 \<le> nextStartTime (playAll Inr ?xs example_client)" using mono r by (simp add: n)
  show ?thesis using o p r example_run g m unfolding eq by (intro conjI)
qed

section \<open>Transcript accumulation\<close>

lemma onmessage_input_fragment:
  "onmessage config atob t (input_fragment f) (c, h) =
     (None, c\<lparr> currentInputText := currentInputText c @ f,
                callbacks := callbacks c @ (if onTranscription config
                               then [Transcription (currentInputText c @ f) User False] else []) \<rparr>, h)"
  by (simp add: onmessage_def input_fragment_def empty_message_def handle_transcription_def
      emit_transcription_def)

lemma onmessage_output_fragment:
  "onmessage config atob t (output_fragment f) (c, h) =
     (None, c\<lparr> currentOutputText := currentOutputText c @ f,
                callbacks := callbacks c @ (if onTranscription config
                               then [Transcription (currentOutputText c @ f) Model False] else []) \<rparr>, h)"
  by (simp add: onmessage_def output_fragment_def empty_message_def handle_transcription_def
      emit_transcription_def)

lemma onmessage_turn_complete:
  "onmessage config atob t turn_complete (c, h) =
     (None, c\<lparr> currentInputText := [], currentOutputText := [],
                callbacks := callbacks c @ (if onTranscription config
                               then [Transcription (currentOutputText c) Model True] else []) \<rparr>, h)"
  by (simp add: onmessage_def turn_complete_def empty_message_def handle_transcription_def
      emit_transcription_def)

lemma receive_input_fragments:
  "receive config atob (map (\<lambda>(t, f). (t, input_fragment f)) tfs) (c, h) =
     (c\<lparr> currentInputText := currentInputText c @ concat (map snd tfs),
         callbacks := callbacks c @ (if onTranscription config
                        then map (\<lambda>a. Transcription a User False)
                               (accumulations (currentInputText c) (map snd tfs))
                        else []) \<rparr>, h)"
proof (induction tfs arbitrary: c)
  case Nil
  show ?case by simp
next
  case (Cons x tfs)
  obtain t f where x: "x = (t, f)" by (cases x)
  show ?case
    by (simp add: x onmessage_input_fragment Cons.IH)
qed

lemma receive_output_fragments:
  "receive config atob (map (\<lambda>(t, f). (t, output_fragment f)) tfs) (c, h) =
     (c\<lparr> currentOutputText := currentOutputText c @ concat (map snd tfs),
         callbacks := callbacks c @ (if onTranscription config
                        then map (\<lambda>a. Transcription a Model False)
                               (accumulations (currentOutputText c) (map snd tfs))
                        else []) \<rparr>, h)"
proof (induction tfs arbitrary: c)
  case Nil
  show ?case by simp
next
  case (Cons x tfs)
  obtain t f where x: "x = (t, f)" by (cases x)
  show ?case
    by (simp add: x onmessage_output_fragment Cons.IH)
qed

text \<open>
  A transcription object without a text is not skipped: \<^verbatim>\<open>+=\<close> appends the string
  \<^verbatim>\<open>undefined\<close>. The claim below speaks of fragments that carry a text.
\<close>

lemma fragment_without_text:
  "currentInputText (fst (snd (onmessage config atob t
      (empty_message\<lparr> msg_inputTranscription := Some None \<rparr>) (c, h))))
   = currentInputText c @ ''undefined''"
  by (simp add: onmessage_def empty_message_def handle_transcription_def emit_transcription_def
      Let_def)

text \<open>
  Any message. \<^verbatim>\<open>playAudio\<close> does not touch the accumulators or the callbacks, and what
  follows the transcription part of the handler (the tool calls) does not either: when
  the audio part returns, the transcripts after the message are those the transcription
  part computes.
\<close>

lemma playAudio_transcripts:
  assumes "playAudio atob t a c = Inr c1"
  shows "currentInputText c1 = currentInputText c"
    and "currentOutputText c1 = currentOutputText c"
    and "callbacks c1 = callbacks c"
  using assms
  by (auto simp: playAudio_def Let_def split: option.splits sum.splits)

lemma accumulations_append:
  "accumulations acc (xs @ ys) = accumulations acc xs @ accumulations (acc @ concat xs) ys"
  by (induction xs arbitrary: acc) simp_all

lemma handle_transcription_input:
  "currentInputText (handle_transcription config m c)
     = (if msg_turnComplete m then [] else currentInputText c @ concat (input_texts m))"
  by (simp add: handle_transcription_def emit_transcription_def input_texts_def Let_def
      split: option.splits)

lemma handle_transcription_output:
  "currentOutputText (handle_transcription config m c)
     = (if msg_turnComplete m then [] else currentOutputText c @ concat (output_texts m))"
  by (simp add: handle_transcription_def emit_transcription_def output_texts_def Let_def
      split: option.splits)

lemma handle_transcription_callbacks:
  "callbacks (handle_transcription config m c)
     = callbacks c @ (if onTranscription config
         then map (\<lambda>a. Transcription a User False)
                (accumulations (currentInputText c) (input_texts m))
            @ map (\<lambda>a. Transcription a Model False)
                (accumulations (currentOutputText c) (output_texts m))
            @ (if msg_turnComplete m
               then [Transcription (currentOutputText c @ concat (output_texts m)) Model True]
               else [])
         else [])"
  by (simp add: handle_transcription_def emit_transcription_def input_texts_def
      output_texts_def Let_def split: option.splits)

lemma onmessage_after_audio:
  assumes "audio_plays atob t m c"
  shows "\<exists>c1 c2. currentInputText c1 = currentInputText c
           \<and> currentOutputText c1 = currentOutputText c
           \<and> callbacks c1 = callbacks c
           \<and> currentInputText c2 = currentInputText (handle_transcription config m c1)
           \<and> currentOutputText c2 = currentOutputText (handle_transcription config m c1)
           \<and> callbacks c2 = callbacks (handle_transcription config m c1)
           \<and> fst (snd (onmessage config atob t m (c, h))) = c2"
proof -
  let ?a = "case msg_audioData m of
               None \<Rightarrow> Inr c
             | Some audioData \<Rightarrow>
                 if audioData \<noteq> [] then playAudio atob t audioData c else Inr c"
  have "\<exists>c1. ?a = Inr c1"
    using assms
    by (cases "msg_audioData m") (auto simp: audio_plays_def split: sum.splits if_splits)
  then obtain c1 where c1: "?a = Inr c1" by blast
  then have f: "currentInputText c1 = currentInputText c"
    "currentOutputText c1 = currentOutputText c" "callbacks c1 = callbacks c"
    using playAudio_transcripts[of atob t _ c c1]
    by (auto split: option.splits if_splits)
  let ?c2 = "handle_transcription config m c1"
  have "fst (snd (onmessage config atob t m (c, h))) = ?c2
        \<or> (\<exists>rs. fst (snd (onmessage config atob t m (c, h))) = sendToolResponse rs ?c2)"
    using c1 by (auto simp: onmessage_def Let_def split: option.splits sum.splits prod.splits)
  then show ?thesis
  proof
    assume "fst (snd (onmessage config atob t m (c, h))) = ?c2"
    then show ?thesis using f by blast
  next
    assume "\<exists>rs. fst (snd (onmessage config atob t m (c, h))) = sendToolResponse rs ?c2"
    then obtain rs where rs: "fst (snd (onmessage config atob t m (c, h)))
                                = sendToolResponse rs ?c2" by blast
    have "currentInputText (sendToolResponse rs ?c2) = currentInputText ?c2"
      "currentOutputText (sendToolResponse rs ?c2) = currentOutputText ?c2"
      "callbacks (sendToolResponse rs ?c2) = callbacks ?c2"
      by (simp_all add: sendToolResponse_def split: option.splits)
    then show ?thesis using f rs by blast
  qed
qed

lemma onmessage_transcripts:
  assumes "audio_plays atob t m c"
  shows "currentInputText (fst (snd (onmessage config atob t m (c, h))))
           = (if msg_turnComplete m then [] else currentInputText c @ concat (input_texts m))"
    and "currentOutputText (fst (snd (onmessage config atob t m (c, h))))
           = (if msg_turnComplete m then [] else currentOutputText c @ concat (output_texts m))"
    and "callbacks (fst (snd (onmessage config atob t m (c, h))))
           = callbacks c @ (if onTranscription config
               then map (\<lambda>a. Transcription a User False)
                      (accumulations (currentInputText c) (input_texts m))
                  @ map (\<lambda>a. Transcription a Model False)
                      (accumulations (currentOutputText c) (output_texts m))
                  @ (if msg_turnComplete m
                     then [Transcription (currentOutputText c @ concat (output_texts m)) Model True]
                     else [])
               else [])"
proof -
  from onmessage_after_audio[OF assms, of config h] obtain c1 c2 where c:
    "currentInputText c1 = currentInputText c" "currentOutputText c1 = currentOutputText c"
    "callbacks c1 = callbacks c"
    "currentInputText c2 = currentInputText (handle_transcription config m c1)"
    "currentOutputText c2 = currentOutputText (handle_transcription config m c1)"
    "callbacks c2 = callbacks (handle_transcription config m c1)"
    "fst (snd (onmessage config atob t m (c, h))) = c2" by blast
  show "currentInputText (fst (snd (onmessage config atob t m (c, h))))
           = (if msg_turnComplete m then [] else currentInputText c @ concat (input_texts m))"
    unfolding c(7) c(4) handle_transcription_input c(1) ..
  show "currentOutputText (fst (snd (onmessage config atob t m (c, h))))
           = (if msg_turnComplete m then [] else currentOutputText c @ concat (output_texts m))"
    unfolding c(7) c(5) handle_transcription_output c(2) ..
  show "callbacks (fst (snd (onmessage config atob t m (c, h))))
           = callbacks c @ (if onTranscription config
               then map (\<lambda>a. Transcription a User False)
                      (accumulations (currentInputText c) (input_texts m))
                  @ map (\<lambda>a. Transcription a Model False)
                      (accumulations (currentOutputText c) (output_texts m))
                  @ (if msg_turnComplete m
                     then [Transcription (currentOutputText c @ concat (output_texts m)) Model True]
                     else [])
               else [])"
    unfolding c(7) c(6) handle_transcription_callbacks c(1) c(2) c(3) ..
qed

text \<open>
  A message whose audio chunk raises is dropped whole: the exception leaves the handler
  before the transcription part, and the client is as it was.
\<close>

lemma onmessage_audio_raises:
  assumes "\<not> audio_plays atob t m c"
  shows "\<exists>e. onmessage config atob t m (c, h) = (Some e, c, h)"
  using assms
  by (auto simp: audio_plays_def onmessage_def split: option.splits sum.splits if_splits)

lemma from_source_transcriptions:
  "from_source src (map (\<lambda>a. Transcription a src' isFinal) xs)
     = (if src = src' then map (\<lambda>a. Transcription a src' isFinal) xs else [])"
  by (induction xs) (auto simp: from_source_def)

lemma from_source_append:
  "from_source src (xs @ ys) = from_source src xs @ from_source src ys"
  by (simp add: from_source_def)

text \<open>A run of messages without a turn-complete signal, the audio of each one playing.\<close>

lemma receive_transcripts:
  assumes "audio_plays_all config atob ms (c, h)"
    and "list_all (\<lambda>(t, m). \<not> msg_turnComplete m) ms"
  shows "currentInputText (fst (receive config atob ms (c, h)))
           = currentInputText c @ concat (input_fragments ms)
       \<and> currentOutputText (fst (receive config atob ms (c, h)))
           = currentOutputText c @ concat (output_fragments ms)
       \<and> (\<exists>new. callbacks (fst (receive config atob ms (c, h))) = callbacks c @ new
             \<and> list_all (\<lambda>e. event_source e \<noteq> None) new
             \<and> from_source User new
                 = (if onTranscription config
                    then map (\<lambda>a. Transcription a User False)
                           (accumulations (currentInputText c) (input_fragments ms))
                    else [])
             \<and> from_source Model new
                 = (if onTranscription config
                    then map (\<lambda>a. Transcription a Model False)
                           (accumulations (currentOutputText c) (output_fragments ms))
                    else []))"
  using assms
proof (induction ms arbitrary: c h)
  case Nil
  show ?case
    by (simp add: input_fragments_def output_fragments_def from_source_def)
next
  case (Cons x ms)
  obtain t m where x: "x = (t, m)" by (cases x)
  obtain e c1 h1 where om: "onmessage config atob t m (c, h) = (e, c1, h1)"
    by (cases "onmessage config atob t m (c, h)")
  have ap: "audio_plays atob t m c" and rest: "audio_plays_all config atob ms (c1, h1)"
    and tc: "\<not> msg_turnComplete m" and tcs: "list_all (\<lambda>(t, m). \<not> msg_turnComplete m) ms"
    using Cons.prems by (simp_all add: x om)
  have c1: "c1 = fst (snd (onmessage config atob t m (c, h)))" by (simp add: om)
  have i1: "currentInputText c1 = currentInputText c @ concat (input_texts m)"
    and o1: "currentOutputText c1 = currentOutputText c @ concat (output_texts m)"
    and k1: "callbacks c1 = callbacks c @ (if onTranscription config
               then map (\<lambda>a. Transcription a User False)
                      (accumulations (currentInputText c) (input_texts m))
                  @ map (\<lambda>a. Transcription a Model False)
                      (accumulations (currentOutputText c) (output_texts m))
               else [])"
    unfolding c1 using onmessage_transcripts[OF ap, of config h] tc by simp_all
  have r: "receive config atob (x # ms) (c, h) = receive config atob ms (c1, h1)"
    by (simp add: x om)
  have fi: "input_fragments (x # ms) = input_texts m @ input_fragments ms"
    and fo: "output_fragments (x # ms) = output_texts m @ output_fragments ms"
    by (simp_all add: x input_fragments_def output_fragments_def)
  from Cons.IH[OF rest tcs] obtain new where new:
    "currentInputText (fst (receive config atob ms (c1, h1)))
       = currentInputText c1 @ concat (input_fragments ms)"
    "currentOutputText (fst (receive config atob ms (c1, h1)))
       = currentOutputText c1 @ concat (output_fragments ms)"
    "callbacks (fst (receive config atob ms (c1, h1))) = callbacks c1 @ new"
    "list_all (\<lambda>e. event_source e \<noteq> None) new"
    "from_source User new
       = (if onTranscription config
          then map (\<lambda>a. Transcription a User False)
                 (accumulations (currentInputText c1) (input_fragments ms))
          else [])"
    "from_source Model new
       = (if onTranscription config
          then map (\<lambda>a. Transcription a Model False)
                 (accumulations (currentOutputText c1) (output_fragments ms))
          else [])" by blast
  let ?mine = "if onTranscription config
               then map (\<lambda>a. Transcription a User False)
                      (accumulations (currentInputText c) (input_texts m))
                  @ map (\<lambda>a. Transcription a Model False)
                      (accumulations (currentOutputText c) (output_texts m))
               else []"
  have a: "currentInputText (fst (receive config atob (x # ms) (c, h)))
             = currentInputText c @ concat (input_fragments (x # ms))"
    unfolding r new(1) i1 fi by simp
  have b: "currentOutputText (fst (receive config atob (x # ms) (c, h)))
             = currentOutputText c @ concat (output_fragments (x # ms))"
    unfolding r new(2) o1 fo by simp
  have k: "callbacks (fst (receive config atob (x # ms) (c, h))) = callbacks c @ (?mine @ new)"
    unfolding r new(3) k1 by simp
  have l: "list_all (\<lambda>e. event_source e \<noteq> None) (?mine @ new)"
    using new(4) by (auto simp: list_all_iff)
  have u: "from_source User (?mine @ new)
             = (if onTranscription config
                then map (\<lambda>a. Transcription a User False)
                       (accumulations (currentInputText c) (input_fragments (x # ms)))
                else [])"
    unfolding from_source_append new(5) i1 fi accumulations_append
    by (simp add: from_source_append from_source_transcriptions) (simp add: from_source_def)
  have v: "from_source Model (?mine @ new)
             = (if onTranscription config
                then map (\<lambda>a. Transcription a Model False)
                       (accumulations (currentOutputText c) (output_fragments (x # ms)))
                else [])"
    unfolding from_source_append new(6) o1 fo accumulations_append
    by (simp add: from_source_append from_source_transcriptions) (simp add: from_source_def)
  from a b k l u v show ?case by blast
qed

text \<open>
  The fragments of the claim with a chunk of three bytes beside the second one: the
  16-bit view of an odd number of bytes raises, the message is dropped and its fragment
  with it.
\<close>

theorem C5_counterexample:
  "msg_inputTranscription ((input_fragment '', '')\<lparr> msg_audioData := Some ''abc'' \<rparr>)
     = Some (Some '', '')
   \<and> fst (receive example_config Inr
            [(0, input_fragment ''Hello''),
             (1, (input_fragment '', '')\<lparr> msg_audioData := Some ''abc'' \<rparr>),
             (2, input_fragment ''world'')] (example_client, 0))
     = example_client\<lparr> currentInputText := ''Helloworld'',
         callbacks := [Transcription ''Hello'' User False,
                       Transcription ''Helloworld'' User False] \<rparr>"
  by (simp add: onmessage_input_fragment example_config_def example_client_eq new_LiveClient_def
      new_AudioContext_def input_fragment_def empty_message_def onmessage_def playAudio_def
      base64ToArrayBuffer_def pcm16ToFloat32_def new_Int16Array_def handle_transcription_def
      emit_transcription_def Let_def)

text \<open>
  Claim C5, amended. Over a run of messages none of which carries the turn-complete
  signal and in each of which the audio chunk, if there is one, is scheduled without an
  exception: the transcription fragments for one source are appended in arrival order to
  the accumulator of that source (the user's \<^verbatim>\<open>currentInputText\<close>, the agent's
  \<^verbatim>\<open>currentOutputText\<close>), and when the \<^verbatim>\<open>onTranscription\<close> callback is supplied its calls
  for that source are, in order, one for each fragment, with the text accumulated so far,
  the source and \<^verbatim>\<open>isFinal = false\<close>; nothing else is reported. A message with the
  turn-complete signal whose audio chunk, if any, is scheduled without an exception first
  handles the fragments it carries in that way, then calls \<^verbatim>\<open>onTranscription\<close> with the
  accumulated agent text, the agent as source (\<^verbatim>\<open>'model'\<close> in the code) and
  \<^verbatim>\<open>isFinal = true\<close>, and then both accumulators are empty. Tool calls in the same
  messages, failing or not, do not change this. (A message whose audio chunk raises
  leaves the client as it was: \<open>onmessage_audio_raises\<close>.)
\<close>

theorem C5_amended:
  "(audio_plays_all config atob ms (c, h) \<and> list_all (\<lambda>(t, m). \<not> msg_turnComplete m) ms \<longrightarrow>
      currentInputText (fst (receive config atob ms (c, h)))
        = currentInputText c @ concat (input_fragments ms)
      \<and> currentOutputText (fst (receive config atob ms (c, h)))
        = currentOutputText c @ concat (output_fragments ms)
      \<and> (\<exists>new. callbacks (fst (receive config atob ms (c, h))) = callbacks c @ new
            \<and> list_all (\<lambda>e. event_source e \<noteq> None) new
            \<and> from_source User new
                = (if onTranscription config
                   then map (\<lambda>a. Transcription a User False)
                          (accumulations (currentInputText c) (input_fragments ms))
                   else [])
            \<and> from_source Model new
                = (if onTranscription config
                   then map (\<lambda>a. Transcription a Model False)
                          (accumulations (currentOutputText c) (output_fragments ms))
                   else [])))
   \<and> (audio_plays atob t m c \<and> msg_turnComplete m \<longrightarrow>
        currentInputText (fst (snd (onmessage config atob t m (c, h)))) = []
      \<and> currentOutputText (fst (snd (onmessage config atob t m (c, h)))) = []
      \<and> callbacks (fst (snd (onmessage config atob t m (c, h))))
          = callbacks c @ (if onTranscription config
              then map (\<lambda>a. Transcription a User False)
                     (accumulations (currentInputText c) (input_texts m))
                 @ map (\<lambda>a. Transcription a Model False)
                     (accumulations (currentOutputText c) (output_texts m))
                 @ [Transcription (currentOutputText c @ concat (output_texts m)) Model True]
              else []))"
proof (intro conjI impI)
  assume "audio_plays_all config atob ms (c, h) \<and> list_all (\<lambda>(t, m). \<not> msg_turnComplete m) ms"
  then have r: "audio_plays_all config atob ms (c, h)"
    "list_all (\<lambda>(t, m). \<not> msg_turnComplete m) ms" by simp_all
  from receive_transcripts[OF r]
  show "currentInputText (fst (receive config atob ms (c, h)))
          = currentInputText c @ concat (input_fragments ms)"
    and "currentOutputText (fst (receive config atob ms (c, h)))
          = currentOutputText c @ concat (output_fragments ms)"
    and "\<exists>new. callbacks (fst (receive config atob ms (c, h))) = callbacks c @ new
            \<and> list_all (\<lambda>e. event_source e \<noteq> None) new
            \<and> from_source User new
                = (if onTranscription config
                   then map (\<lambda>a. Transcription a User False)
                          (accumulations (currentInputText c) (input_fragments ms))
                   else [])
            \<and> from_source Model new
                = (if onTranscription config
                   then map (\<lambda>a. Transcription a Model False)
                          (accumulations (currentOutputText c) (output_fragments ms))
                   else [])"
    by simp_all
next
  assume "audio_plays atob t m c \<and> msg_turnComplete m"
  then have a: "audio_plays atob t m c" and tc: "msg_turnComplete m" by simp_all
  from onmessage_transcripts[OF a, of config h] tc
  show "currentInputText (fst (snd (onmessage config atob t m (c, h)))) = []"
    and "currentOutputText (fst (snd (onmessage config atob t m (c, h)))) = []"
    and "callbacks (fst (snd (onmessage config atob t m (c, h))))
          = callbacks c @ (if onTranscription config
              then map (\<lambda>a. Transcription a User False)
                     (accumulations (currentInputText c) (input_texts m))
                 @ map (\<lambda>a. Transcription a Model False)
                     (accumulations (currentOutputText c) (output_texts m))
                 @ [Transcription (currentOutputText c @ concat (output_texts m)) Model True]
              else [])"
    by simp_all
qed

theorem C5_amended_witness:
  "audio_plays_all example_config Inr
      [(0, (input_fragment ''Hello'')\<lparr> msg_audioData := Some ''ab'' \<rparr>),
       (1, (input_fragment '', '')\<lparr> msg_outputTranscription := Some (Some ''Hi'') \<rparr>),
       (2, (input_fragment ''world'')\<lparr> msg_toolCall := Some (Some [example_call ''1'' ''zoom'']) \<rparr>)]
      (example_client, 0)
   \<and> list_all (\<lambda>(t, m). \<not> msg_turnComplete m)
      [(0, (input_fragment ''Hello'')\<lparr> msg_audioData := Some ''ab'' \<rparr>),
       (1, (input_fragment '', '')\<lparr> msg_outputTranscription := Some (Some ''Hi'') \<rparr>),
       (2, (input_fragment ''world'')\<lparr> msg_toolCall := Some (Some [example_call ''1'' ''zoom'']) \<rparr>)]
   \<and> currentInputText (fst (receive example_config Inr
      [(0, (input_fragment ''Hello'')\<lparr> msg_audioData := Some ''ab'' \<rparr>),
       (1, (input_fragment '', '')\<lparr> msg_outputTranscription := Some (Some ''Hi'') \<rparr>),
       (2, (input_fragment ''world'')\<lparr> msg_toolCall := Some (Some [example_call ''1'' ''zoom'']) \<rparr>)]
      (example_client, 0))) = ''Hello, world''
   \<and> from_source User (callbacks (fst (receive example_config Inr
      [(0, (input_fragment ''Hello'')\<lparr> msg_audioData := Some ''ab'' \<rparr>),
       (1, (input_fragment '', '')\<lparr> msg_outputTranscription := Some (Some ''Hi'') \<rparr>),
       (2, (input_fragment ''world'')\<lparr> msg_toolCall := Some (Some [example_call ''1'' ''zoom'']) \<rparr>)]
      (example_client, 0))))
     = [Transcription ''Hello'' User False, Transcription ''Hello, '' User False,
        Transcription ''Hello, world'' User False]
   \<and> audio_plays Inr 3 ((output_fragment ''!'')\<lparr> msg_turnComplete := True \<rparr>)
        (example_client\<lparr> currentInputText := ''Hello, world'', currentOutputText := ''Hi'' \<rparr>)
   \<and> msg_turnComplete ((output_fragment ''!'')\<lparr> msg_turnComplete := True \<rparr>)
   \<and> currentOutputText (fst (snd (onmessage example_config Inr 3
        ((output_fragment ''!'')\<lparr> msg_turnComplete := True \<rparr>)
        (example_client\<lparr> currentInputText := ''Hello, world'', currentOutputText := ''Hi'' \<rparr>, 0))))
     = []
   \<and> callbacks (fst (snd (onmessage example_config Inr 3
        ((output_fragment ''!'')\<lparr> msg_turnComplete := True \<rparr>)
        (example_client\<lparr> currentInputText := ''Hello, world'', currentOutputText := ''Hi'' \<rparr>, 0))))
     = [Transcription ''Hi!'' Model False, Transcription ''Hi!'' Model True]"
proof -
  let ?ms = "[(0, (input_fragment ''Hello'')\<lparr> msg_audioData := Some ''ab'' \<rparr>),
       (1, (input_fragment '', '')\<lparr> msg_outputTranscription := Some (Some ''Hi'') \<rparr>),
       (2, (input_fragment ''world'')\<lparr> msg_toolCall := Some (Some [example_call ''1'' ''zoom'']) \<rparr>)]"
  let ?m = "(output_fragment ''!'')\<lparr> msg_turnComplete := True \<rparr>"
  let ?c = "example_client\<lparr> currentInputText := ''Hello, world'', currentOutputText := ''Hi'' \<rparr>"
  have a: "audio_plays_all example_config Inr ?ms (example_client, 0)"
    by (simp add: audio_plays_def input_fragment_def empty_message_def example_client_eq
        new_LiveClient_def new_AudioContext_def playAudio_def base64ToArrayBuffer_def
        pcm16ToFloat32_def new_Int16Array_def createBuffer_def Let_def)
  have l: "list_all (\<lambda>(t, m). \<not> msg_turnComplete m) ?ms"
    by (simp add: input_fragment_def empty_message_def)
  have p: "audio_plays Inr 3 ?m ?c" and tc: "msg_turnComplete ?m"
    by (simp_all add: audio_plays_def output_fragment_def empty_message_def)
  have i: "input_fragments ?ms = [''Hello'', '', '', ''world'']"
    by (simp add: input_fragments_def input_texts_def input_fragment_def empty_message_def)
  have e: "currentInputText example_client = []" "callbacks example_client = []"
    by (simp_all add: example_client_eq new_LiveClient_def)
  have t: "input_texts ?m = []" "output_texts ?m = [''!'']"
    by (simp_all add: input_texts_def output_texts_def output_fragment_def empty_message_def)
  from C5_amended[of example_config Inr ?ms example_client 0 3 ?m] a l
  obtain new where new:
    "currentInputText (fst (receive example_config Inr ?ms (example_client, 0)))
       = currentInputText example_client @ concat (input_fragments ?ms)"
    "callbacks (fst (receive example_config Inr ?ms (example_client, 0)))
       = callbacks example_client @ new"
    "from_source User new
       = (if onTranscription example_config
          then map (\<lambda>a. Transcription a User False)
                 (accumulations (currentInputText example_client) (input_fragments ?ms))
          else [])"
    by blast
  have 1: "currentInputText (fst (receive example_config Inr ?ms (example_client, 0)))
             = ''Hello, world''"
    unfolding new(1) i e by simp
  have 2: "from_source User (callbacks (fst (receive example_config Inr ?ms (example_client, 0))))
             = [Transcription ''Hello'' User False, Transcription ''Hello, '' User False,
                Transcription ''Hello, world'' User False]"
    unfolding new(2) e append_Nil new(3) i by (simp add: example_config_def)
  have 3: "currentOutputText (fst (snd (onmessage example_config Inr 3 ?m (?c, 0)))) = []"
    using C5_amended[of example_config Inr "[]" ?c 0 3 ?m] p tc by blast
  have "callbacks (fst (snd (onmessage example_config Inr 3 ?m (?c, 0))))
          = callbacks ?c @ (if onTranscription example_config
              then map (\<lambda>a. Transcription a User False)
                     (accumulations (currentInputText ?c) (input_texts ?m))
                 @ map (\<lambda>a. Transcription a Model False)
                     (accumulations (currentOutputText ?c) (output_texts ?m))
                 @ [Transcription (currentOutputText ?c @ concat (output_texts ?m)) Model True]
              else [])"
    using C5_amended[of example_config Inr "[]" ?c 0 3 ?m] p tc by blast
  then have 4: "callbacks (fst (snd (onmessage example_config Inr 3 ?m (?c, 0))))
          = [Transcription ''Hi!'' Model False, Transcription ''Hi!'' Model True]"
    unfolding t by (simp add: example_config_def e)
  from a l 1 2 p tc 3 4 show ?thesis by (intro conjI)
qed

section \<open>Tool-call batches\<close>

text \<open>The loop of the handler against what the tool handler does by itself.\<close>

lemma callTools_results:
  "callTools (Some f) fcs acc h =
     (case tool_results f fcs h of
        (Inl e, h') \<Rightarrow> (Inl e, h')
      | (Inr vs, h') \<Rightarrow> (Inr (acc @ map2 tool_response fcs vs), h'))"
proof (induction fcs arbitrary: acc h)
  case Nil
  show ?case by simp
next
  case (Cons fc fcs)
  show ?case
    by (simp add: Cons.IH tool_response_def split: prod.splits sum.splits)
qed

lemma tool_results_length:
  "tool_results f fcs h = (Inr vs, h') \<Longrightarrow> length vs = length fcs"
  by (induction fcs arbitrary: vs h) (auto split: prod.splits sum.splits)

text \<open>Without a handler the loop pushes nothing: the response sent is empty.\<close>

lemma callTools_None: "callTools None fcs acc h = (Inr acc, h)"
  by (induction fcs) simp_all

lemma handle_transcription_keeps:
  "sessionPromise (handle_transcription config m c) = sessionPromise c"
  "toolResponses (handle_transcription config m c) = toolResponses c"
  by (simp_all add: handle_transcription_def emit_transcription_def Let_def split: option.splits)

lemma onmessage_tools_resolve:
  assumes "msg_audioData m = None" "msg_toolCall m = Some (Some fcs)"
    "onToolCall config = Some f" "sessionPromise c = Some s"
    "tool_results f fcs h = (Inr vs, h1)"
  shows "onmessage config atob t m (c, h) =
           (None, (handle_transcription config m c)
                    \<lparr> toolResponses := toolResponses c @ [map2 tool_response fcs vs] \<rparr>, h1)"
  using assms
  by (simp add: onmessage_def callTools_results sendToolResponse_def handle_transcription_keeps)

lemma onmessage_tools_reject:
  assumes "msg_audioData m = None" "msg_toolCall m = Some (Some fcs)"
    "onToolCall config = Some f"
    "tool_results f fcs h = (Inl e, h1)"
  shows "onmessage config atob t m (c, h) = (Some e, handle_transcription config m c, h1)"
  using assms
  by (simp add: onmessage_def callTools_results)

lemma map2_tool_response_ids:
  "length vs = length fcs \<Longrightarrow> map fr_id (map2 tool_response fcs vs) = map fc_id fcs
     \<and> map fr_name (map2 tool_response fcs vs) = map fc_name fcs"
  by (induction fcs vs rule: list_induct2') (simp_all add: tool_response_def)

lemma example_results_ok:
  "tool_results example_handler [example_call ''a'' ''edit_image'', example_call ''b'' ''noop''] 0
     = (Inr [JString ''Image edited successfully'', JUndefined], 2)"
  by (simp add: example_handler_def example_call_def)

lemma example_results_reject:
  "tool_results example_handler [example_call ''a'' ''edit_image'', example_call ''b'' ''other''] 0
     = (Inl (Error ''unknown tool''), 2)"
  by (simp add: example_handler_def example_call_def)

lemma example_message_facts:
  "msg_audioData (tool_call_message fcs) = None"
  "msg_toolCall (tool_call_message fcs) = Some (Some fcs)"
  "onToolCall example_config = Some example_handler"
  "sessionPromise example_client = Some Session"
  "toolResponses example_client = []"
  by (simp_all add: tool_call_message_def empty_message_def example_config_def
      example_client_eq new_LiveClient_def)

text \<open>
  Claim C3, as stated, fails: in a batch of two invocations whose second handler call
  rejects, the exception leaves the message handler, and no tool response is sent, not
  even for the first invocation, whose handler had resolved.
\<close>

theorem C3_counterexample:
  "onmessage example_config Inr 0
     (tool_call_message [example_call ''a'' ''edit_image'', example_call ''b'' ''other''])
     (example_client, 0)
   = (Some (Error ''unknown tool''), example_client, 2)
   \<and> toolResponses example_client = []"
  by (simp add: onmessage_def tool_call_message_def empty_message_def example_config_def
      example_handler_def example_call_def handle_transcription_def example_client_eq
      new_LiveClient_def)

text \<open>
  Claim C3, amended: for an inbound tool-call batch of K invocations, received in a
  message without audio while a tool handler is configured and the connection reference
  is held: when every handler invocation resolves, the message handler ends without an
  exception and hands to the connection exactly one tool-response message with exactly
  K results, in the order of the invocations, each with the id and the name of its
  invocation; when a handler invocation rejects, that exception ends the message handler
  and no tool response is sent for the batch.
\<close>

theorem C3_amended:
  assumes "msg_audioData m = None" and "msg_toolCall m = Some (Some fcs)"
    and "onToolCall config = Some f" and "sessionPromise c = Some s"
  shows "(\<forall>vs h1. tool_results f fcs h = (Inr vs, h1) \<longrightarrow>
            (\<exists>c' rs. onmessage config atob t m (c, h) = (None, c', h1)
               \<and> toolResponses c' = toolResponses c @ [rs]
               \<and> length rs = length fcs
               \<and> map fr_id rs = map fc_id fcs \<and> map fr_name rs = map fc_name fcs))
       \<and> (\<forall>e h1. tool_results f fcs h = (Inl e, h1) \<longrightarrow>
            (\<exists>c'. onmessage config atob t m (c, h) = (Some e, c', h1)
               \<and> toolResponses c' = toolResponses c))"
proof (intro conjI allI impI)
  fix vs h1 assume r: "tool_results f fcs h = (Inr vs, h1)"
  let ?rs = "map2 tool_response fcs vs"
  let ?c' = "(handle_transcription config m c)\<lparr> toolResponses := toolResponses c @ [?rs] \<rparr>"
  have len: "length vs = length fcs" using r by (rule tool_results_length)
  have "onmessage config atob t m (c, h) = (None, ?c', h1)"
    using assms r by (rule onmessage_tools_resolve)
  moreover have "toolResponses ?c' = toolResponses c @ [?rs]" by simp
  moreover have "length ?rs = length fcs" using len by simp
  moreover have "map fr_id ?rs = map fc_id fcs \<and> map fr_name ?rs = map fc_name fcs"
    using len by (rule map2_tool_response_ids)
  ultimately show "\<exists>c' rs. onmessage config atob t m (c, h) = (None, c', h1)
               \<and> toolResponses c' = toolResponses c @ [rs]
               \<and> length rs = length fcs
               \<and> map fr_id rs = map fc_id fcs \<and> map fr_name rs = map fc_name fcs"
    by (intro exI[of _ ?c'] exI[of _ ?rs] conjI) simp_all
next
  fix e h1 assume r: "tool_results f fcs h = (Inl e, h1)"
  have "onmessage config atob t m (c, h) = (Some e, handle_transcription config m c, h1)"
    using assms(1-3) r by (rule onmessage_tools_reject)
  then show "\<exists>c'. onmessage config atob t m (c, h) = (Some e, c', h1)
               \<and> toolResponses c' = toolResponses c"
    by (intro exI[of _ "handle_transcription config m c"]) (simp add: handle_transcription_keeps)
qed

theorem C3_amended_witness:
  "tool_results example_handler [example_call ''a'' ''edit_image'', example_call ''b'' ''noop''] 0
     = (Inr [JString ''Image edited successfully'', JUndefined], 2)
   \<and> (\<exists>c' rs. onmessage example_config Inr 0
          (tool_call_message [example_call ''a'' ''edit_image'', example_call ''b'' ''noop''])
          (example_client, 0) = (None, c', 2)
        \<and> toolResponses c' = [rs] \<and> length rs = 2
        \<and> map fr_id rs = [''a'', ''b''] \<and> map fr_name rs = [''edit_image'', ''noop''])
   \<and> tool_results example_handler [example_call ''a'' ''edit_image'', example_call ''b'' ''other''] 0
     = (Inl (Error ''unknown tool''), 2)
   \<and> (\<exists>c'. onmessage example_config Inr 0
          (tool_call_message [example_call ''a'' ''edit_image'', example_call ''b'' ''other''])
          (example_client, 0) = (Some (Error ''unknown tool''), c', 2)
        \<and> toolResponses c' = [])"
proof -
  let ?fcs = "[example_call ''a'' ''edit_image'', example_call ''b'' ''noop'']"
  let ?bad = "[example_call ''a'' ''edit_image'', example_call ''b'' ''other'']"
  note t = C3_amended[OF example_message_facts(1)[of ?fcs] example_message_facts(2)[of ?fcs]
      example_message_facts(3) example_message_facts(4), of 0 Inr 0]
  from t obtain c' rs where
    a: "onmessage example_config Inr 0 (tool_call_message ?fcs) (example_client, 0) = (None, c', 2)"
    and b: "toolResponses c' = toolResponses example_client @ [rs]"
    and c: "length rs = length ?fcs"
    and d: "map fr_id rs = map fc_id ?fcs" "map fr_name rs = map fc_name ?fcs"
    using example_results_ok by blast
  have "toolResponses c' = [rs]" using b by (simp add: example_message_facts(5))
  moreover have "length rs = 2" using c by simp
  moreover have "map fr_id rs = [''a'', ''b'']" using d(1) by (simp add: example_call_def)
  moreover have "map fr_name rs = [''edit_image'', ''noop'']"
    using d(2) by (simp add: example_call_def)
  ultimately have ok: "\<exists>c' rs. onmessage example_config Inr 0 (tool_call_message ?fcs)
          (example_client, 0) = (None, c', 2)
        \<and> toolResponses c' = [rs] \<and> length rs = 2
        \<and> map fr_id rs = [''a'', ''b''] \<and> map fr_name rs = [''edit_image'', ''noop'']"
    using a by (intro exI[of _ c'] exI[of _ rs] conjI)
  note u = C3_amended[OF example_message_facts(1)[of ?bad] example_message_facts(2)[of ?bad]
      example_message_facts(3) example_message_facts(4), of 0 Inr 0]
  from u obtain c'' where
    e: "onmessage example_config Inr 0 (tool_call_message ?bad) (example_client, 0)
          = (Some (Error ''unknown tool''), c'', 2)"
    and f: "toolResponses c'' = toolResponses example_client"
    using example_results_reject by blast
  have "toolResponses c'' = []" using f by (simp add: example_message_facts(5))
  with e have bad: "\<exists>c'. onmessage example_config Inr 0 (tool_call_message ?bad)
          (example_client, 0) = (Some (Error ''unknown tool''), c', 2)
        \<and> toolResponses c' = []"
    by (intro exI[of _ c''] conjI)
  show ?thesis
    using example_results_ok ok example_results_reject bad by (intro conjI)
qed

text \<open>
  Claim C8, as stated, fails: a handler that resolves with \<^verbatim>\<open>false\<close> has resolved with a
  value, yet the result sent is \<^verbatim>\<open>"success"\<close>, not the value: the code writes
  \<^verbatim>\<open>result || "success"\<close>, which replaces every falsy value.
\<close>

theorem C8_counterexample:
  "tool_results example_handler [example_call ''a'' ''check''] 0 = (Inr [JBoolean False], 1)
   \<and> toolResponses (fst (snd (onmessage example_config Inr 0
        (tool_call_message [example_call ''a'' ''check'']) (example_client, 0))))
     = [[\<lparr> fr_id = ''a'', fr_name = ''check'', fr_result = JString ''success'' \<rparr>]]"
  by (simp add: onmessage_def tool_call_message_def empty_message_def example_config_def
      example_handler_def example_call_def handle_transcription_def example_client_eq
      new_LiveClient_def sendToolResponse_def)

text \<open>
  Claim C8, amended: for a tool-call batch received in a message without audio while a
  tool handler is configured and the connection reference is held, and whose handler
  invocations all resolve: the result sent for an invocation is \<^verbatim>\<open>"success"\<close> when its
  handler resolved with no value or with any other falsy value (\<^verbatim>\<open>null\<close>, \<^verbatim>\<open>false\<close>, 0,
  \<^verbatim>\<open>NaN\<close>, the empty string), and the value the handler resolved with otherwise; and all
  results of the batch are submitted together in one outbound message
  \<^verbatim>\<open>{ functionResponses: [{ id, name, response: { result } }, ...] }\<close>.
\<close>

theorem C8_amended:
  assumes "msg_audioData m = None" and "msg_toolCall m = Some (Some fcs)"
    and "onToolCall config = Some f" and "sessionPromise c = Some s"
    and "tool_results f fcs h = (Inr vs, h1)"
  shows "\<exists>c' rs. onmessage config atob t m (c, h) = (None, c', h1)
           \<and> toolResponses c' = toolResponses c @ [rs]
           \<and> rs = map2 (\<lambda>fc v. \<lparr> fr_id = fc_id fc, fr_name = fc_name fc, fr_result = v \<rparr>) fcs
                    (map (\<lambda>v. if truthy v then v else JString ''success'') vs)
           \<and> (\<forall>i<length vs. vs ! i = JUndefined \<longrightarrow> fr_result (rs ! i) = JString ''success'')
           \<and> (\<forall>i<length vs. truthy (vs ! i) \<longrightarrow> fr_result (rs ! i) = vs ! i)"
proof -
  let ?rs = "map2 tool_response fcs vs"
  let ?c' = "(handle_transcription config m c)\<lparr> toolResponses := toolResponses c @ [?rs] \<rparr>"
  have len: "length vs = length fcs" using assms(5) by (rule tool_results_length)
  have om: "onmessage config atob t m (c, h) = (None, ?c', h1)"
    using assms by (rule onmessage_tools_resolve)
  have shape: "?rs = map2 (\<lambda>fc v. \<lparr> fr_id = fc_id fc, fr_name = fc_name fc, fr_result = v \<rparr>) fcs
                    (map (\<lambda>v. if truthy v then v else JString ''success'') vs)"
    using len by (induction fcs vs rule: list_induct2') (simp_all add: tool_response_def)
  have res: "fr_result (?rs ! i) = (if truthy (vs ! i) then vs ! i else JString ''success'')"
    if "i < length vs" for i
    using that len by (simp add: tool_response_def)
  have u: "\<forall>i<length vs. vs ! i = JUndefined \<longrightarrow> fr_result (?rs ! i) = JString ''success''"
    using res by simp
  have v: "\<forall>i<length vs. truthy (vs ! i) \<longrightarrow> fr_result (?rs ! i) = vs ! i"
    using res by simp
  have tr: "toolResponses ?c' = toolResponses c @ [?rs]" by simp
  show ?thesis
    using om tr shape u v by (intro exI[of _ ?c'] exI[of _ ?rs] conjI)
qed

theorem C8_amended_witness:
  "tool_results example_handler [example_call ''a'' ''edit_image'', example_call ''b'' ''noop''] 0
     = (Inr [JString ''Image edited successfully'', JUndefined], 2)
   \<and> (\<exists>c'. onmessage example_config Inr 0
          (tool_call_message [example_call ''a'' ''edit_image'', example_call ''b'' ''noop''])
          (example_client, 0) = (None, c', 2)
        \<and> toolResponses c' =
            [[\<lparr> fr_id = ''a'', fr_name = ''edit_image'',
                 fr_result = JString ''Image edited successfully'' \<rparr>,
              \<lparr> fr_id = ''b'', fr_name = ''noop'', fr_result = JString ''success'' \<rparr>]])"
proof -
  let ?fcs = "[example_call ''a'' ''edit_image'', example_call ''b'' ''noop'']"
  note t = C8_amended[OF example_message_facts(1)[of ?fcs] example_message_facts(2)[of ?fcs]
      example_message_facts(3) example_message_facts(4) example_results_ok, of Inr 0]
  then obtain c' rs where
    a: "onmessage example_config Inr 0 (tool_call_message ?fcs) (example_client, 0) = (None, c', 2)"
    and b: "toolResponses c' = toolResponses example_client @ [rs]"
    and c: "rs = map2 (\<lambda>fc v. \<lparr> fr_id = fc_id fc, fr_name = fc_name fc, fr_result = v \<rparr>) ?fcs
                    (map (\<lambda>v. if truthy v then v else JString ''success'')
                       [JString ''Image edited successfully'', JUndefined])"
    by blast
  have "toolResponses c' =
            [[\<lparr> fr_id = ''a'', fr_name = ''edit_image'',
                 fr_result = JString ''Image edited successfully'' \<rparr>,
              \<lparr> fr_id = ''b'', fr_name = ''noop'', fr_result = JString ''success'' \<rparr>]]"
    by (simp add: b c example_message_facts(5) example_call_def)
  then show ?thesis using a example_results_ok by (intro conjI exI[of _ c']) simp_all
qed

section \<open>Teardown\<close>

lemma stop_tracks_fields:
  "processor (stop_tracks c) = processor c"
  "inputSource (stop_tracks c) = inputSource c"
  "inputAudioContext (stop_tracks c) = inputAudioContext c"
  "outputAudioContext (stop_tracks c) = outputAudioContext c"
  "stream (stop_tracks c) = map_option (map (\<lambda>track. False)) (stream c)"
  by (simp_all add: stop_tracks_def split: option.splits)

lemma detach_processor_fields:
  "stream (detach_processor c) = stream c"
  "inputSource (detach_processor c) = inputSource c"
  "inputAudioContext (detach_processor c) = inputAudioContext c"
  "outputAudioContext (detach_processor c) = outputAudioContext c"
  "processor (detach_processor c)
     = map_option (\<lambda>p. p\<lparr> proc_connected := False, proc_onaudioprocess := False \<rparr>) (processor c)"
  by (simp_all add: detach_processor_def split: option.splits)

lemma detach_source_fields:
  "stream (detach_source c) = stream c"
  "processor (detach_source c) = processor c"
  "inputAudioContext (detach_source c) = inputAudioContext c"
  "outputAudioContext (detach_source c) = outputAudioContext c"
  "inputSource (detach_source c) = map_option (\<lambda>n. n\<lparr> src_connected := False \<rparr>) (inputSource c)"
  by (simp_all add: detach_source_def split: option.splits)

lemmas detach_fields = stop_tracks_fields detach_processor_fields detach_source_fields

lemma close_input_running:
  assumes "\<forall>ctx. inputAudioContext c = Some ctx \<longrightarrow> ctx_state ctx = Running"
  shows "\<exists>c'. close_input c = Inr c' \<and> stream c' = stream c \<and> processor c' = processor c
           \<and> inputSource c' = inputSource c \<and> outputAudioContext c' = outputAudioContext c
           \<and> (case inputAudioContext c' of None \<Rightarrow> True | Some ctx \<Rightarrow> ctx_state ctx = Closed)"
  using assms by (cases "inputAudioContext c") (simp_all add: close_input_def close_context_def)

lemma close_output_running:
  assumes "\<forall>ctx. outputAudioContext c = Some ctx \<longrightarrow> ctx_state ctx = Running"
  shows "\<exists>c'. close_output c = Inr c' \<and> stream c' = stream c \<and> processor c' = processor c
           \<and> inputSource c' = inputSource c \<and> inputAudioContext c' = inputAudioContext c
           \<and> (case outputAudioContext c' of None \<Rightarrow> True | Some ctx \<Rightarrow> ctx_state ctx = Closed)"
  using assms by (cases "outputAudioContext c") (simp_all add: close_output_def close_context_def)

text \<open>A client that was never connected: \<^verbatim>\<open>disconnect\<close> does nothing, any number of times.\<close>

lemma disconnect_new: "disconnect new_LiveClient = (None, new_LiveClient)"
  by (simp add: disconnect_def new_LiveClient_def stop_tracks_def detach_processor_def
      detach_source_def close_input_def close_output_def)

text \<open>
  The first call on a client whose contexts, if any, are open: no exception, and the
  client is torn down.
\<close>

lemma disconnect_running:
  assumes i: "\<forall>ctx. inputAudioContext c = Some ctx \<longrightarrow> ctx_state ctx = Running"
    and o: "\<forall>ctx. outputAudioContext c = Some ctx \<longrightarrow> ctx_state ctx = Running"
  shows "fst (disconnect c) = None \<and> torn_down (snd (disconnect c))"
proof -
  let ?c3 = "detach_source (detach_processor (stop_tracks c))"
  have "\<forall>ctx. inputAudioContext ?c3 = Some ctx \<longrightarrow> ctx_state ctx = Running"
    using i by (simp add: detach_fields)
  from close_input_running[OF this] obtain c4 where c4:
    "close_input ?c3 = Inr c4" "stream c4 = stream ?c3" "processor c4 = processor ?c3"
    "inputSource c4 = inputSource ?c3" "outputAudioContext c4 = outputAudioContext ?c3"
    "case inputAudioContext c4 of None \<Rightarrow> True | Some ctx \<Rightarrow> ctx_state ctx = Closed"
    by blast
  have "\<forall>ctx. outputAudioContext c4 = Some ctx \<longrightarrow> ctx_state ctx = Running"
    using o by (simp add: c4(5) detach_fields)
  from close_output_running[OF this] obtain c5 where c5:
    "close_output c4 = Inr c5" "stream c5 = stream c4" "processor c5 = processor c4"
    "inputSource c5 = inputSource c4" "inputAudioContext c5 = inputAudioContext c4"
    "case outputAudioContext c5 of None \<Rightarrow> True | Some ctx \<Rightarrow> ctx_state ctx = Closed"
    by blast
  have d: "disconnect c = (None, c5\<lparr> sessionPromise := None,
                             currentInputText := [], currentOutputText := [] \<rparr>)"
    by (simp add: disconnect_def c4(1) c5(1))
  have s: "case stream c5 of None \<Rightarrow> True | Some tracks \<Rightarrow> list_all (\<lambda>live. \<not> live) tracks"
    by (cases "stream c") (simp_all add: c5(2) c4(2) detach_fields list_all_iff)
  have p: "case processor c5 of None \<Rightarrow> True
           | Some p \<Rightarrow> \<not> proc_connected p \<and> \<not> proc_onaudioprocess p"
    by (cases "processor c") (simp_all add: c5(3) c4(3) detach_fields)
  have n: "case inputSource c5 of None \<Rightarrow> True | Some n \<Rightarrow> \<not> src_connected n"
    by (cases "inputSource c") (simp_all add: c5(4) c4(4) detach_fields)
  have ic: "case inputAudioContext c5 of None \<Rightarrow> True | Some ctx \<Rightarrow> ctx_state ctx = Closed"
    using c4(6) by (simp add: c5(5))
  show ?thesis
    unfolding d using s p n ic c5(6) by (simp add: torn_down_def)
qed

text \<open>A call on a client whose input context is already closed ends with the rejection.\<close>

lemma disconnect_closed:
  assumes "inputAudioContext c = Some ctx" and "ctx_state ctx = Closed"
  shows "fst (disconnect c) = Some InvalidStateError"
proof -
  let ?c3 = "detach_source (detach_processor (stop_tracks c))"
  have "inputAudioContext ?c3 = Some ctx" using assms(1) by (simp add: detach_fields)
  then have "close_input ?c3 = Inl InvalidStateError"
    using assms(2) by (simp add: close_input_def close_context_def)
  then show ?thesis by (simp add: disconnect_def)
qed

lemma example_client_fields:
  "example_client =
     \<lparr> sessionPromise = Some Session,
       inputAudioContext = Some \<lparr> ctx_state = Running, ctx_started = [] \<rparr>,
       outputAudioContext = Some \<lparr> ctx_state = Running, ctx_started = [] \<rparr>,
       inputSource = Some \<lparr> src_connected = True \<rparr>,
       processor = Some \<lparr> proc_connected = True, proc_onaudioprocess = True \<rparr>,
       nextStartTime = 0, stream = Some [True],
       currentInputText = [], currentOutputText = [], callbacks = [], toolResponses = [] \<rparr>"
  by (simp add: example_client_eq new_LiveClient_def new_AudioContext_def)

text \<open>
  Claim C6 at its failing input: a connected client with a granted microphone, and
  \<^verbatim>\<open>disconnect\<close> called twice in a row. The first call ends without an exception and
  leaves the client torn down. The second call closes the input context again, the
  context rejects with \<^verbatim>\<open>InvalidStateError\<close>, and \<^verbatim>\<open>disconnect\<close> ends with that exception:
  the call is not idempotent. The client stays torn down.
\<close>

theorem C6_disconnect_twice:
  "fst (disconnect example_client) = None
   \<and> torn_down (snd (disconnect example_client))
   \<and> disconnect (snd (disconnect example_client))
       = (Some InvalidStateError, snd (disconnect example_client))"
  by (simp add: example_client_fields disconnect_def torn_down_def close_context_def
      stop_tracks_def detach_processor_def detach_source_def close_input_def close_output_def)

text \<open>
  A call right after \<^verbatim>\<open>connect\<close>, before the session has opened, tears the client down
  without an exception. The session is not closed by it; when it opens afterwards,
  \<^verbatim>\<open>onopen\<close> runs \<^verbatim>\<open>startAudioInput\<close>, whose guard sees the closed context that was never
  set to null, and a granted microphone leaves a live track behind.
\<close>

lemma disconnect_before_open:
  "connect None (Some ''key'') new_LiveClient = Inr c \<Longrightarrow>
     fst (disconnect c) = None \<and> torn_down (snd (disconnect c))
     \<and> stream (startAudioInput config (Inr [True]) (snd (disconnect c))) = Some [True]"
  by (auto simp: connect_def new_LiveClient_def new_AudioContext_def disconnect_def torn_down_def
      close_context_def stop_tracks_def detach_processor_def detach_source_def close_input_def
      close_output_def startAudioInput_def)

section \<open>The edit request service: when it fails\<close>

lemma find_image_Inl:
  "isl (find_image ps) = list_all (\<lambda>p. part_inlineData p = None) ps"
  by (induction ps) (simp_all split: option.splits)

lemma find_image_Inr:
  "find_image ps = Inr url \<Longrightarrow>
     \<exists>p d. find (\<lambda>p. part_inlineData p \<noteq> None) ps = Some p \<and> part_inlineData p = Some d
       \<and> url = ''data:image/png;base64,'' @ str_or_undefined d"
  by (induction ps) (auto split: option.splits)

lemma find_image_error:
  "find_image ps = Inl e \<Longrightarrow> e = Error ''No image data found in response.''"
  by (induction ps) (auto split: option.splits)

lemma first_candidate_index:
  "(case resp_candidates r of None \<Rightarrow> None | Some cs \<Rightarrow> js_index cs 0) = first_candidate r"
  by (auto simp: first_candidate_def js_index_def split: option.splits list.splits)

lemma parts_of_content:
  "parts_of c = (case content_parts (cand_content c) of None \<Rightarrow> [] | Some ps \<Rightarrow> ps)"
  by (cases "cand_content c") (auto simp: parts_of_def split: option.splits)

text \<open>The code rejects a response exactly under the conditions of the contract.\<close>

lemma read_response_rejects: "isl (read_response r) = spec_unusable r"
proof (cases "first_candidate r")
  case None
  then show ?thesis
    by (simp add: read_response_def first_candidate_index spec_unusable_def)
next
  case (Some c)
  show ?thesis
  proof (cases "content_parts (cand_content c)")
    case None
    then show ?thesis using Some
      by (simp add: read_response_def first_candidate_index spec_unusable_def parts_of_content)
  next
    case (Some ps)
    then show ?thesis using \<open>first_candidate r = Some c\<close>
      by (cases "ps = []")
         (simp_all add: read_response_def first_candidate_index spec_unusable_def
            parts_of_content find_image_Inl Let_def)
  qed
qed

lemma read_response_url:
  assumes "read_response r = Inr url"
  shows "\<exists>c p d. first_candidate r = Some c
           \<and> find (\<lambda>p. part_inlineData p \<noteq> None) (parts_of c) = Some p
           \<and> part_inlineData p = Some d
           \<and> url = ''data:image/png;base64,'' @ str_or_undefined d"
proof -
  from assms obtain c where c: "first_candidate r = Some c"
    by (cases "first_candidate r") (simp_all add: read_response_def first_candidate_index)
  from assms c obtain ps where ps: "content_parts (cand_content c) = Some ps"
    by (cases "content_parts (cand_content c)")
       (simp_all add: read_response_def first_candidate_index Let_def split: if_splits)
  from assms c ps have "find_image ps = Inr url"
    by (simp add: read_response_def first_candidate_index Let_def split: if_splits)
  from find_image_Inr[OF this] obtain p d where
    "find (\<lambda>p. part_inlineData p \<noteq> None) ps = Some p" "part_inlineData p = Some d"
    "url = ''data:image/png;base64,'' @ str_or_undefined d"
    by blast
  moreover have "parts_of c = ps" using ps by (simp add: parts_of_content)
  ultimately show ?thesis using c by blast
qed

lemma read_response_error:
  assumes "read_response r = Inl e"
  shows "\<exists>msg. e = Error msg \<and> msg \<noteq> []"
proof (cases "first_candidate r")
  case None
  then show ?thesis using assms by (auto simp: read_response_def first_candidate_index)
next
  case (Some c)
  show ?thesis
  proof (cases "content_parts (cand_content c)")
    case None
    then show ?thesis using Some assms
      by (auto simp: read_response_def first_candidate_index Let_def split: if_splits)
  next
    case (Some ps)
    then show ?thesis using \<open>first_candidate r = Some c\<close> assms
      by (auto simp: read_response_def first_candidate_index Let_def split: if_splits
          dest: find_image_error)
  qed
qed

text \<open>
  Claim C7, as stated, fails: \<^verbatim>\<open>editImage\<close> also rejects when the request to the model
  itself fails. Here the credential is present and no response exists whose candidates
  or parts could be missing; the error of the SDK is thrown again.
\<close>

theorem C7_counterexample:
  "str_truthy (Some ''key'')
   \<and> failing_sdk (Some ''key'') = Inl (Error ''fetch failed'')
   \<and> editImage_keyed failing_sdk None ''data:image/png;base64,QQ=='' ''remove background''
        (Some ''key'') = Inl (Error ''fetch failed'')"
  by (simp add: editImage_keyed_def failing_sdk_def)

text \<open>
  Claim C7, amended. The version of \<^verbatim>\<open>editImage\<close> with a credential argument rejects
  exactly when: the credential is missing (the argument and the environment variable are
  both absent or empty); or the request to the model itself rejects, in which case that
  error is thrown again; or no response candidate is returned, or the finish reason of
  the response is not \<open>STOP\<close> and no content part accompanies it, or the content has no
  parts, or no part carries image data. Where the code itself rejects, the error has a
  message. In every other case it resolves with \<^verbatim>\<open>data:image/png;base64,\<close> followed by
  the data of the first part of the first candidate that carries image data. The version
  of \<^verbatim>\<open>services/geminiService.ts\<close> has no credential check of its own: it passes the
  environment variable to the SDK and does the same from there on.
\<close>

theorem C7_amended:
  "(let key = (if str_truthy apiKey then apiKey else env) in
      isl (editImage_keyed sdk env img txt apiKey)
        = (\<not> str_truthy key \<or> (case sdk key of Inl e \<Rightarrow> True | Inr r \<Rightarrow> spec_unusable r))
      \<and> (\<forall>e. editImage_keyed sdk env img txt apiKey = Inl e \<longrightarrow>
            (str_truthy key \<and> sdk key = Inl e) \<or> (\<exists>msg. e = Error msg \<and> msg \<noteq> []))
      \<and> (\<forall>url. editImage_keyed sdk env img txt apiKey = Inr url \<longrightarrow>
            (\<exists>r c p d. sdk key = Inr r \<and> first_candidate r = Some c
           \<and> find (\<lambda>p. part_inlineData p \<noteq> None) (parts_of c) = Some p
               \<and> part_inlineData p = Some d
               \<and> url = ''data:image/png;base64,'' @ str_or_undefined d)))
   \<and> isl (editImage sdk env img txt)
        = (case sdk env of Inl e \<Rightarrow> True | Inr r \<Rightarrow> spec_unusable r)
   \<and> (\<forall>url. editImage sdk env img txt = Inr url \<longrightarrow>
         (\<exists>r c p d. sdk env = Inr r \<and> first_candidate r = Some c
           \<and> find (\<lambda>p. part_inlineData p \<noteq> None) (parts_of c) = Some p
            \<and> part_inlineData p = Some d
            \<and> url = ''data:image/png;base64,'' @ str_or_undefined d))"
proof -
  define key where "key = (if str_truthy apiKey then apiKey else env)"
  have k: "editImage_keyed sdk env img txt apiKey =
             (if \<not> str_truthy key
              then Inl (Error ''API Key is missing. Please provide a valid Gemini API Key in settings.'')
              else case sdk key of Inl e \<Rightarrow> Inl e | Inr r \<Rightarrow> read_response r)"
    by (simp add: editImage_keyed_def key_def Let_def)
  have a: "isl (editImage_keyed sdk env img txt apiKey)
        = (\<not> str_truthy key \<or> (case sdk key of Inl e \<Rightarrow> True | Inr r \<Rightarrow> spec_unusable r))"
    by (cases "sdk key") (simp_all add: k read_response_rejects)
  have b: "(str_truthy key \<and> sdk key = Inl e) \<or> (\<exists>msg. e = Error msg \<and> msg \<noteq> [])"
    if "editImage_keyed sdk env img txt apiKey = Inl e" for e
  proof (cases "str_truthy key")
    case False
    then show ?thesis using that by (auto simp: k)
  next
    case True
    show ?thesis
    proof (cases "sdk key")
      case (Inl e')
      then show ?thesis using that True by (simp add: k)
    next
      case (Inr r)
      then have "read_response r = Inl e" using that True by (simp add: k)
      then show ?thesis by (auto dest: read_response_error)
    qed
  qed
  have c: "\<exists>r c p d. sdk key = Inr r \<and> first_candidate r = Some c
           \<and> find (\<lambda>p. part_inlineData p \<noteq> None) (parts_of c) = Some p
               \<and> part_inlineData p = Some d
               \<and> url = ''data:image/png;base64,'' @ str_or_undefined d"
    if "editImage_keyed sdk env img txt apiKey = Inr url" for url
  proof -
    from that have t: "str_truthy key" by (auto simp: k split: if_splits)
    with that obtain r where r: "sdk key = Inr r" "read_response r = Inr url"
      by (cases "sdk key") (simp_all add: k)
    from read_response_url[OF r(2)] r(1) show ?thesis by blast
  qed
  have d: "isl (editImage sdk env img txt)
        = (case sdk env of Inl e \<Rightarrow> True | Inr r \<Rightarrow> spec_unusable r)"
    by (cases "sdk env") (simp_all add: editImage_def read_response_rejects)
  have e: "\<exists>r c p d. sdk env = Inr r \<and> first_candidate r = Some c
           \<and> find (\<lambda>p. part_inlineData p \<noteq> None) (parts_of c) = Some p
            \<and> part_inlineData p = Some d
            \<and> url = ''data:image/png;base64,'' @ str_or_undefined d"
    if "editImage sdk env img txt = Inr url" for url
  proof -
    from that obtain r where r: "sdk env = Inr r" "read_response r = Inr url"
      by (cases "sdk env") (simp_all add: editImage_def)
    from read_response_url[OF r(2)] r(1) show ?thesis by blast
  qed
  show ?thesis
    unfolding Let_def key_def[symmetric]
    using a b c d e by (intro conjI allI impI)
qed

theorem C7_amended_witness:
  "editImage_keyed example_sdk None ''data:image/png;base64,QQ=='' ''remove background''
        (Some ''key'') = Inr ''data:image/png;base64,QUJD''
   \<and> \<not> spec_unusable example_response
   \<and> editImage_keyed example_sdk None ''data:image/png;base64,QQ=='' ''remove background'' None
       = Inl (Error ''API Key is missing. Please provide a valid Gemini API Key in settings.'')
   \<and> isl (editImage example_sdk None ''data:image/png;base64,QQ=='' ''remove background'')"
proof -
  have r: "read_response example_response = Inr ''data:image/png;base64,QUJD''"
    by (simp add: read_response_def example_response_def js_index_def)
  have 1: "editImage_keyed example_sdk None ''data:image/png;base64,QQ=='' ''remove background''
        (Some ''key'') = Inr ''data:image/png;base64,QUJD''"
    by (simp add: editImage_keyed_def example_sdk_def r)
  have 2: "editImage_keyed example_sdk None ''data:image/png;base64,QQ=='' ''remove background'' None
       = Inl (Error ''API Key is missing. Please provide a valid Gemini API Key in settings.'')"
    by (simp add: editImage_keyed_def)
  note t = C7_amended[of "Some ''key''" None example_sdk "''data:image/png;base64,QQ==''"
      "''remove background''"]
  from t have "isl (editImage_keyed example_sdk None ''data:image/png;base64,QQ==''
        ''remove background'' (Some ''key''))
      = (case example_sdk (Some ''key'') of Inl e \<Rightarrow> True | Inr r \<Rightarrow> spec_unusable r)"
    by (simp add: Let_def)
  then have 3: "\<not> spec_unusable example_response"
    by (simp add: 1 example_sdk_def)
  from t have "isl (editImage example_sdk None ''data:image/png;base64,QQ=='' ''remove background'')
      = (case example_sdk None of Inl e \<Rightarrow> True | Inr r \<Rightarrow> spec_unusable r)"
    by (simp add: Let_def)
  then have 4: "isl (editImage example_sdk None ''data:image/png;base64,QQ=='' ''remove background'')"
    by (simp add: example_sdk_def)
  show ?thesis using 1 2 3 4 by (intro conjI)
qed

section \<open>The controller's edit history\<close>

lemma slice0_take: "0 \<le> e \<Longrightarrow> slice0 xs e = take (nat e) xs"
  by (simp add: slice0_def Let_def min_def)

lemma addLog_fields:
  "currentImage (addLog m ty s) = currentImage s"
  "history (addLog m ty s) = history s"
  "historyIndex (addLog m ty s) = historyIndex s"
  "appState (addLog m ty s) = appState s"
  "timers (addLog m ty s) = timers s"
  by (simp_all add: addLog_def)

lemma handleImageSelected_fields:
  "currentImage (handleImageSelected now name A s) = Some A"
  "map item_url (history (handleImageSelected now name A s)) = [A]"
  "historyIndex (handleImageSelected now name A s) = 0"
  by (simp_all add: handleImageSelected_def addLog_fields)

text \<open>A successful edit, from the closure of render \<open>r\<close>, in the state \<open>s\<close>.\<close>

lemma handleExternalEdit_success:
  assumes "editImage sdk env img txt = Inr B"
  shows "fst (handleExternalEdit r sdk env rnd now img txt s) = ''Image edited successfully''"
    and "currentImage (snd (handleExternalEdit r sdk env rnd now img txt s)) = Some B"
    and "history (snd (handleExternalEdit r sdk env rnd now img txt s))
           = slice0 (history s) (historyIndex r + 1)
             @ [\<lparr> item_id = rnd, item_url = B, item_prompt = txt, item_timestamp = now \<rparr>]"
    and "historyIndex (snd (handleExternalEdit r sdk env rnd now img txt s)) = historyIndex s + 1"
    and "appState (snd (handleExternalEdit r sdk env rnd now img txt s)) = IDLE"
  using assms by (simp_all add: handleExternalEdit_def Let_def addLog_fields)

lemma handleExternalEdit_failure:
  assumes "editImage sdk env img txt = Inl e"
  shows "fst (handleExternalEdit r sdk env rnd now img txt s) = ''Failed to edit image''"
    and "currentImage (snd (handleExternalEdit r sdk env rnd now img txt s)) = currentImage s"
    and "history (snd (handleExternalEdit r sdk env rnd now img txt s)) = history s"
    and "historyIndex (snd (handleExternalEdit r sdk env rnd now img txt s)) = historyIndex s"
    and "appState (snd (handleExternalEdit r sdk env rnd now img txt s)) = ERROR"
    and "timers (snd (handleExternalEdit r sdk env rnd now img txt s)) = timers s @ [(2000, IDLE)]"
  using assms by (simp_all add: handleExternalEdit_def Let_def addLog_fields)

lemma handleUndo_effective:
  assumes "0 < historyIndex s" and "historyIndex s \<le> int (length (history s))"
  shows "fst (handleUndo s s) = None"
    and "historyIndex (snd (handleUndo s s)) = historyIndex s - 1"
    and "currentImage (snd (handleUndo s s))
           = Some (item_url (history s ! nat (historyIndex s - 1)))"
    and "history (snd (handleUndo s s)) = history s"
  using assms by (simp_all add: handleUndo_def js_index_def Let_def addLog_fields)

lemma handleRedo_effective:
  assumes "- 1 \<le> historyIndex s" and "historyIndex s < int (length (history s)) - 1"
  shows "fst (handleRedo s s) = None"
    and "historyIndex (snd (handleRedo s s)) = historyIndex s + 1"
    and "currentImage (snd (handleRedo s s))
           = Some (item_url (history s ! nat (historyIndex s + 1)))"
    and "history (snd (handleRedo s s)) = history s"
  using assms by (simp_all add: handleRedo_def js_index_def Let_def addLog_fields)

lemma handleUndo_ineffective: "\<not> 0 < historyIndex s \<Longrightarrow> handleUndo s s = (None, s)"
  by (simp add: handleUndo_def)

lemma handleRedo_ineffective:
  "\<not> historyIndex s < int (length (history s)) - 1 \<Longrightarrow> handleRedo s s = (None, s)"
  by (simp add: handleRedo_def)

text \<open>
  Handlers called from the latest render (\<open>r = s\<close>). From any state, uploading image A
  makes the history the single item of A with index 0; a successful edit that returns
  image B makes it the items of A and B with index 1 and B current; undo then makes A
  current with index 0 and redo makes B current again with index 1. In general such an
  edit keeps the history up to the current index, dropping any redo branch, and appends
  the new item; undo changes nothing unless the index is greater than 0, and redo
  changes nothing unless the index is less than the length of the history minus 1.
\<close>

lemma latest_render_history:
  assumes "editImage sdk env A txt = Inr B"
  shows "(let s1 = handleImageSelected t0 name A s0;
              s2 = snd (handleExternalEdit s1 sdk env rnd t1 A txt s1);
              s3 = snd (handleUndo s2 s2);
              s4 = snd (handleRedo s3 s3)
          in map item_url (history s1) = [A] \<and> historyIndex s1 = 0 \<and> currentImage s1 = Some A
           \<and> map item_url (history s2) = [A, B] \<and> historyIndex s2 = 1 \<and> currentImage s2 = Some B
           \<and> fst (handleUndo s2 s2) = None \<and> map item_url (history s3) = [A, B]
           \<and> historyIndex s3 = 0 \<and> currentImage s3 = Some A
           \<and> fst (handleRedo s3 s3) = None \<and> map item_url (history s4) = [A, B]
           \<and> historyIndex s4 = 1 \<and> currentImage s4 = Some B)
       \<and> (- 1 \<le> historyIndex s \<longrightarrow>
            history (snd (handleExternalEdit s sdk env rnd t1 A txt s))
              = take (nat (historyIndex s + 1)) (history s)
                @ [\<lparr> item_id = rnd, item_url = B, item_prompt = txt, item_timestamp = t1 \<rparr>]
            \<and> historyIndex (snd (handleExternalEdit s sdk env rnd t1 A txt s)) = historyIndex s + 1)
       \<and> (\<not> 0 < historyIndex s \<longrightarrow> handleUndo s s = (None, s))
       \<and> (\<not> historyIndex s < int (length (history s)) - 1 \<longrightarrow> handleRedo s s = (None, s))"
proof -
  define a where "a = \<lparr> item_id = ''original'', item_url = A,
      item_prompt = (if language s0 = Am then MSG_ORIGINAL_AM else ''Original Image''),
      item_timestamp = t0 \<rparr>"
  define b where "b = \<lparr> item_id = rnd, item_url = B, item_prompt = txt, item_timestamp = t1 \<rparr>"
  define s1 where "s1 = handleImageSelected t0 name A s0"
  define s2 where "s2 = snd (handleExternalEdit s1 sdk env rnd t1 A txt s1)"
  define s3 where "s3 = snd (handleUndo s2 s2)"
  define s4 where "s4 = snd (handleRedo s3 s3)"
  have ab: "item_url a = A" "item_url b = B" by (simp_all add: a_def b_def)
  have h1: "history s1 = [a]" "historyIndex s1 = 0" "currentImage s1 = Some A"
    by (simp_all add: s1_def a_def handleImageSelected_def addLog_fields)
  have h2: "history s2 = [a, b]" "historyIndex s2 = 1" "currentImage s2 = Some B"
    by (simp_all add: s2_def b_def handleExternalEdit_success[OF assms] h1 slice0_def)
  have u: "0 < historyIndex s2" "historyIndex s2 \<le> int (length (history s2))"
    by (simp_all add: h2)
  have h3: "fst (handleUndo s2 s2) = None" "history s3 = [a, b]" "historyIndex s3 = 0"
    "currentImage s3 = Some A"
    by (simp_all add: s3_def handleUndo_effective[OF u] h2 ab)
  have r: "- 1 \<le> historyIndex s3" "historyIndex s3 < int (length (history s3)) - 1"
    by (simp_all add: h3)
  have h4: "fst (handleRedo s3 s3) = None" "history s4 = [a, b]" "historyIndex s4 = 1"
    "currentImage s4 = Some B"
    by (simp_all add: s4_def handleRedo_effective[OF r] h3 ab)
  have scen: "map item_url (history s1) = [A] \<and> historyIndex s1 = 0 \<and> currentImage s1 = Some A
           \<and> map item_url (history s2) = [A, B] \<and> historyIndex s2 = 1 \<and> currentImage s2 = Some B
           \<and> fst (handleUndo s2 s2) = None \<and> map item_url (history s3) = [A, B]
           \<and> historyIndex s3 = 0 \<and> currentImage s3 = Some A
           \<and> fst (handleRedo s3 s3) = None \<and> map item_url (history s4) = [A, B]
           \<and> historyIndex s4 = 1 \<and> currentImage s4 = Some B"
    by (simp add: h1 h2 h3 h4 ab)
  have gen: "- 1 \<le> historyIndex s \<longrightarrow>
            history (snd (handleExternalEdit s sdk env rnd t1 A txt s))
              = take (nat (historyIndex s + 1)) (history s)
                @ [\<lparr> item_id = rnd, item_url = B, item_prompt = txt, item_timestamp = t1 \<rparr>]
            \<and> historyIndex (snd (handleExternalEdit s sdk env rnd t1 A txt s)) = historyIndex s + 1"
    by (simp add: handleExternalEdit_success[OF assms] slice0_take)
  show ?thesis
    unfolding Let_def s1_def[symmetric] s2_def[symmetric] s3_def[symmetric] s4_def[symmetric]
    using scen gen handleUndo_ineffective[of s] handleRedo_ineffective[of s]
    by (intro conjI impI) simp_all
qed

text \<open>
  The closure matters. \<^verbatim>\<open>handleExternalEdit\<close> truncates at the index of the render its
  closure was made at, while the index itself is counted on from the current one: with a
  history of two items at index 1 and a closure from index 0, the second item is dropped,
  although it is the current one and no redo branch, and the index becomes 2, past the
  end.
\<close>

lemma stale_closure_edit:
  assumes "editImage sdk env img txt = Inr C"
    and "history s = [a, b]" and "historyIndex s = 1" and "historyIndex r = 0"
  shows "history (snd (handleExternalEdit r sdk env rnd now img txt s))
           = [a, \<lparr> item_id = rnd, item_url = C, item_prompt = txt, item_timestamp = now \<rparr>]
         \<and> historyIndex (snd (handleExternalEdit r sdk env rnd now img txt s)) = 2"
  using assms(2-4) by (simp add: handleExternalEdit_success[OF assms(1)] slice0_def)

lemma example_edit:
  "editImage example_sdk (Some ''key'') ''data:image/png;base64,QQ=='' txt
     = Inr ''data:image/png;base64,QUJD''"
  by (simp add: editImage_def example_sdk_def read_response_def example_response_def js_index_def)

text \<open>
  A spoken edit that succeeds: the closure of render \<open>r\<close> edits the image of that render
  and truncates at the index of that render.
\<close>

lemma live_onToolCall_edit:
  assumes "editImage sdk env img txt = Inr B" and "currentImage r = Some img" and "img \<noteq> []"
  shows "fst (live_onToolCall r sdk env rnd now ''edit_image'' txt s)
           = JString ''Image edited successfully''"
    and "history (snd (live_onToolCall r sdk env rnd now ''edit_image'' txt s))
           = slice0 (history s) (historyIndex r + 1)
             @ [\<lparr> item_id = rnd, item_url = B, item_prompt = txt, item_timestamp = now \<rparr>]"
    and "historyIndex (snd (live_onToolCall r sdk env rnd now ''edit_image'' txt s))
           = historyIndex s + 1"
    and "currentImage (snd (live_onToolCall r sdk env rnd now ''edit_image'' txt s)) = Some B"
proof -
  let ?s1 = "addLog (''Live Command: '' @ [CHR 0x22] @ txt @ [CHR 0x22]) Info s"
  have c: "live_onToolCall r sdk env rnd now ''edit_image'' txt s
             = (JString (fst (handleExternalEdit r sdk env rnd now img txt ?s1)),
                snd (handleExternalEdit r sdk env rnd now img txt ?s1))"
    using assms(2,3) by (simp add: live_onToolCall_def Let_def split: prod.splits)
  show "fst (live_onToolCall r sdk env rnd now ''edit_image'' txt s)
           = JString ''Image edited successfully''"
    unfolding c by (simp add: handleExternalEdit_success[OF assms(1)])
  show "history (snd (live_onToolCall r sdk env rnd now ''edit_image'' txt s))
           = slice0 (history s) (historyIndex r + 1)
             @ [\<lparr> item_id = rnd, item_url = B, item_prompt = txt, item_timestamp = now \<rparr>]"
    unfolding c by (simp add: handleExternalEdit_success[OF assms(1)] addLog_fields)
  show "historyIndex (snd (live_onToolCall r sdk env rnd now ''edit_image'' txt s))
           = historyIndex s + 1"
    unfolding c by (simp add: handleExternalEdit_success[OF assms(1)] addLog_fields)
  show "currentImage (snd (live_onToolCall r sdk env rnd now ''edit_image'' txt s)) = Some B"
    unfolding c by (simp add: handleExternalEdit_success[OF assms(1)])
qed

text \<open>
  Claim C9 at its failing input: image A is uploaded, the live mode is started, and three
  edits are spoken one after the other, each returning an image. The live client calls
  the \<^verbatim>\<open>onToolCall\<close> closure of the render at which the live mode was started, so every
  edit truncates the history at the index of that render, 0, and not at the current
  index. After the first edit the history is the items of the upload and of that edit,
  with index 1, as the claim says. The second edit drops the item of the first, which is
  the current item and not a redo branch, and the index becomes 2 where the history has
  two items, so that it points at no item. After the third edit the history still has two
  items and the index is 3; undo, called from the latest render and effective by the claim
  since the index is greater than 0, sets the index to 2 and raises \<^verbatim>\<open>TypeError\<close> on
  reading the item there, and the current image is not reverted.
\<close>

theorem C9_stale_closure:
  "(let r = handleImageSelected 1 ''a.png'' ''data:image/png;base64,QQ=='' initial_App;
        s1 = snd (live_onToolCall r example_sdk (Some ''key'') ''k1'' 2
                    ''edit_image'' ''make it black and white'' r);
        s2 = snd (live_onToolCall r example_sdk (Some ''key'') ''k2'' 3
                    ''edit_image'' ''add a hat'' s1);
        s3 = snd (live_onToolCall r example_sdk (Some ''key'') ''k3'' 4
                    ''edit_image'' ''make it brighter'' s2)
    in map item_id (history r) = [''original''] \<and> historyIndex r = 0
     \<and> map item_id (history s1) = [''original'', ''k1''] \<and> historyIndex s1 = 1
     \<and> fst (live_onToolCall r example_sdk (Some ''key'') ''k2'' 3
               ''edit_image'' ''add a hat'' s1) = JString ''Image edited successfully''
     \<and> map item_id (history s2) = [''original'', ''k2''] \<and> historyIndex s2 = 2
     \<and> js_index (history s2) (historyIndex s2) = None
     \<and> fst (live_onToolCall r example_sdk (Some ''key'') ''k3'' 4
               ''edit_image'' ''make it brighter'' s2) = JString ''Image edited successfully''
     \<and> map item_id (history s3) = [''original'', ''k3''] \<and> historyIndex s3 = 3
     \<and> 0 < historyIndex s3
     \<and> fst (handleUndo s3 s3) = Some TypeError
     \<and> historyIndex (snd (handleUndo s3 s3)) = 2
     \<and> currentImage (snd (handleUndo s3 s3)) = currentImage s3)"
proof -
  define r where "r = handleImageSelected 1 ''a.png'' ''data:image/png;base64,QQ=='' initial_App"
  define s1 where "s1 = snd (live_onToolCall r example_sdk (Some ''key'') ''k1'' 2
                    ''edit_image'' ''make it black and white'' r)"
  define s2 where "s2 = snd (live_onToolCall r example_sdk (Some ''key'') ''k2'' 3
                    ''edit_image'' ''add a hat'' s1)"
  define s3 where "s3 = snd (live_onToolCall r example_sdk (Some ''key'') ''k3'' 4
                    ''edit_image'' ''make it brighter'' s2)"
  define a where "a = \<lparr> item_id = ''original'', item_url = ''data:image/png;base64,QQ=='',
      item_prompt = (if language initial_App = Am then MSG_ORIGINAL_AM else ''Original Image''),
      item_timestamp = 1 \<rparr>"
  have hr: "history r = [a]" "historyIndex r = 0"
    "currentImage r = Some ''data:image/png;base64,QQ==''"
    by (simp_all add: r_def a_def handleImageSelected_def addLog_fields)
  have ne: "''data:image/png;base64,QQ=='' \<noteq> []" by simp
  note e = live_onToolCall_edit[OF example_edit hr(3) ne]
  have h1: "history s1 = [a, \<lparr> item_id = ''k1'', item_url = ''data:image/png;base64,QUJD'',
                               item_prompt = ''make it black and white'', item_timestamp = 2 \<rparr>]"
    "historyIndex s1 = 1"
    by (simp_all add: s1_def e hr slice0_def)
  have h2: "history s2 = [a, \<lparr> item_id = ''k2'', item_url = ''data:image/png;base64,QUJD'',
                               item_prompt = ''add a hat'', item_timestamp = 3 \<rparr>]"
    "historyIndex s2 = 2"
    by (simp_all add: s2_def e hr h1 slice0_def)
  have h3: "history s3 = [a, \<lparr> item_id = ''k3'', item_url = ''data:image/png;base64,QUJD'',
                               item_prompt = ''make it brighter'', item_timestamp = 4 \<rparr>]"
    "historyIndex s3 = 3"
    by (simp_all add: s3_def e hr h2 slice0_def)
  have i: "item_id a = ''original''" by (simp add: a_def)
  have f2: "fst (live_onToolCall r example_sdk (Some ''key'') ''k2'' 3
               ''edit_image'' ''add a hat'' s1) = JString ''Image edited successfully''"
    and f3: "fst (live_onToolCall r example_sdk (Some ''key'') ''k3'' 4
               ''edit_image'' ''make it brighter'' s2) = JString ''Image edited successfully''"
    by (rule e(1))+
  have j2: "js_index (history s2) (historyIndex s2) = None"
    by (simp add: js_index_def h2)
  have u: "handleUndo s3 s3 = (Some TypeError, s3\<lparr> historyIndex := 2 \<rparr>)"
    by (simp add: handleUndo_def js_index_def h3 Let_def)
  show ?thesis
    unfolding Let_def r_def[symmetric] s1_def[symmetric] s2_def[symmetric] s3_def[symmetric]
    using f2 j2 f3 by (simp add: u hr h1 h2 h3 i)
qed

text \<open>
  Claim C10: when the underlying \<^verbatim>\<open>editImage\<close> call rejects, \<^verbatim>\<open>handleExternalEdit\<close> resolves
  with the string \<^verbatim>\<open>"Failed to edit image"\<close>, and the edit history, the history index and
  the current image are what they were; the state shown is \<^verbatim>\<open>ERROR\<close>.
\<close>

theorem C10_failed_edit:
  assumes "editImage sdk env img txt = Inl e"
  shows "fst (handleExternalEdit r sdk env rnd now img txt s) = ''Failed to edit image''
       \<and> history (snd (handleExternalEdit r sdk env rnd now img txt s)) = history s
       \<and> historyIndex (snd (handleExternalEdit r sdk env rnd now img txt s)) = historyIndex s
       \<and> currentImage (snd (handleExternalEdit r sdk env rnd now img txt s)) = currentImage s
       \<and> appState (snd (handleExternalEdit r sdk env rnd now img txt s)) = ERROR"
  using handleExternalEdit_failure[OF assms] by (intro conjI)

theorem C10_failed_edit_witness:
  "editImage failing_sdk None ''data:image/png;base64,QQ=='' ''remove background''
     = Inl (Error ''fetch failed'')
   \<and> fst (handleExternalEdit initial_App failing_sdk None ''k3x'' 2
            ''data:image/png;base64,QQ=='' ''remove background'' initial_App)
       = ''Failed to edit image''
   \<and> history (snd (handleExternalEdit initial_App failing_sdk None ''k3x'' 2
            ''data:image/png;base64,QQ=='' ''remove background'' initial_App)) = []
   \<and> historyIndex (snd (handleExternalEdit initial_App failing_sdk None ''k3x'' 2
            ''data:image/png;base64,QQ=='' ''remove background'' initial_App)) = - 1
   \<and> currentImage (snd (handleExternalEdit initial_App failing_sdk None ''k3x'' 2
            ''data:image/png;base64,QQ=='' ''remove background'' initial_App)) = None"
proof -
  have e: "editImage failing_sdk None ''data:image/png;base64,QQ=='' ''remove background''
     = Inl (Error ''fetch failed'')"
    by (simp add: editImage_def failing_sdk_def)
  note t = C10_failed_edit[OF e, of initial_App "''k3x''" 2 initial_App]
  show ?thesis using e t by (simp add: initial_App_def)
qed

end
